theory Spec2Isabelle
  imports Main "HOL-Library.Sublist" "HOL-Library.AList"
begin

section \<open>KMZ cleaner: a model of kmz-cleaner.py\<close>

text \<open>
  The script unpacks zip archives, reads the KML document of each KMZ archive with
  \<^verbatim>\<open>xml.etree.ElementTree\<close>, writes a fixed-template KML document from four extracted values,
  and packs that document with the overlay image into a new archive. The model follows the
  script function by function. The library calls it makes (the XML parser, the zip archive
  reader and writer, the file system) are modelled below to the extent the script uses
  them; an input on which the model of a library call does not claim to know the library's
  answer yields the value \<open>Unmodelled\<close>, which no theorem treats as a result of the script.

  Strings are byte strings (\<open>char list\<close>). Console output (\<^verbatim>\<open>print\<close>) is not modelled.
\<close>

subsection \<open>Exceptions\<close>

datatype error =
    ParseError      \<comment> \<open>\<^verbatim>\<open>xml.etree.ElementTree.ParseError\<close>\<close>
  | AttributeError  \<comment> \<open>\<^verbatim>\<open>.text\<close> or \<^verbatim>\<open>.find\<close> on \<^verbatim>\<open>None\<close>\<close>
  | TypeError       \<comment> \<open>\<^verbatim>\<open>os.path.join\<close> with \<^verbatim>\<open>None\<close>\<close>
  | BadZipFile      \<comment> \<open>\<^verbatim>\<open>zipfile.BadZipFile\<close>\<close>
  | OSError         \<comment> \<open>any file system error (missing file, not a directory, is a directory, ...)\<close>
  | IndexError      \<comment> \<open>\<^verbatim>\<open>arcname[0]\<close> on an empty archive name\<close>
  | Unmodelled      \<comment> \<open>the input leaves the modelled fragment of a library\<close>

subsection \<open>The XML parser (\<^verbatim>\<open>ET.parse\<close>)\<close>

text \<open>
  An element as the script sees it: the expanded tag \<^verbatim>\<open>{uri}local\<close>, the text before the first
  child (\<^verbatim>\<open>None\<close> when there is none) and the children in document order. Attributes and
  tails are not read by the script.
\<close>

datatype element = Element (etag: string) (etext: "string option") (echildren: "element list")

text \<open>
  The parser is a character automaton over a stack of open elements. It covers documents
  over printable ASCII, tab and newline, with an optional XML declaration, elements, attributes,
  namespace declarations, comments, CDATA sections and the five predefined entities.
  Processing instructions, document type declarations, character references, carriage returns,
  bytes outside ASCII and a few rarer constructs give \<open>Unmodelled\<close>.
\<close>

type_synonym attrs = "(string \<times> string) list"

datatype frame = Frame (f_raw: string) (f_tag: string) (f_ns: attrs) (f_text: string)
  (f_kids: "element list")

datatype mode =
    Content nat
  | Lt
  | StartName string
  | InTag string attrs
  | AttrName string attrs string
  | AttrEq string attrs string
  | AttrQuote string attrs string
  | AttrVal string attrs string char string
  | AfterVal string attrs
  | EmptySlash string attrs
  | EndName string
  | EndWs string
  | Bang string
  | Comment nat
  | CData nat
  | Ent string

datatype pstate = St mode "frame list" "element option" | Fail error

definition modelled_char :: "char \<Rightarrow> bool" where
  "modelled_char c \<longleftrightarrow>
     c = CHR 0x09 \<or> c = CHR 0x0A \<or> (32 \<le> (of_char c :: nat) \<and> (of_char c :: nat) \<le> 126)"

definition is_ws :: "char \<Rightarrow> bool" where
  "is_ws c \<longleftrightarrow> c = CHR '' '' \<or> c = CHR 0x09 \<or> c = CHR 0x0A"

definition name_start :: "char \<Rightarrow> bool" where
  "name_start c \<longleftrightarrow>
     c \<in> set ''abcdefghijklmnopqrstuvwxyzABCDEFGHIJKLMNOPQRSTUVWXYZ_''"

definition name_char :: "char \<Rightarrow> bool" where
  "name_char c \<longleftrightarrow> name_start c \<or> c \<in> set ''0123456789-.:''"

definition kml_ns :: string where
  "kml_ns = ''http://www.opengis.net/kml/2.2''"

definition reserved_uris :: "string list" where
  "reserved_uris = [''http://www.w3.org/XML/1998/namespace'', ''http://www.w3.org/2000/xmlns/'']"

text \<open>Namespace bindings declared by one attribute; the default namespace is bound to the empty prefix.\<close>

definition bind_attr :: "string \<times> string \<Rightarrow> error + attrs \<Rightarrow> error + attrs" where
  "bind_attr a env =
     (case env of Inl e \<Rightarrow> Inl e
      | Inr bs \<Rightarrow>
         (let n = fst a; v = snd a in
          if n = ''xmlns'' then
            (if v \<in> set reserved_uris then Inl Unmodelled else Inr ((''''  , v) # bs))
          else if prefix ''xmlns:'' n then
            (let p = drop 6 n in
             if p = [] \<or> CHR '':'' \<in> set p \<or> p = ''xml'' \<or> p = ''xmlns'' \<or> v = []
                \<or> v \<in> set reserved_uris
             then Inl Unmodelled else Inr ((p, v) # bs))
          else if CHR '':'' \<in> set n then Inl Unmodelled
          else Inr bs))"

definition expand_name :: "attrs \<Rightarrow> string \<Rightarrow> error + string" where
  "expand_name env raw =
     (if CHR '':'' \<notin> set raw then
        (case map_of env [] of
           None \<Rightarrow> Inr raw
         | Some uri \<Rightarrow> if uri = [] then Inr raw else Inr (''{'' @ uri @ ''}'' @ raw))
      else
        (let p = takeWhile (\<lambda>c. c \<noteq> CHR '':'') raw;
             l = drop 1 (dropWhile (\<lambda>c. c \<noteq> CHR '':'') raw) in
         if p = [] \<or> l = [] \<or> CHR '':'' \<in> set l \<or> p = ''xml'' \<or> p = ''xmlns'' then Inl Unmodelled
         else (case map_of env p of
                 None \<Rightarrow> Inl ParseError
               | Some uri \<Rightarrow> Inr (''{'' @ uri @ ''}'' @ l))))"

definition open_tag :: "string \<Rightarrow> attrs \<Rightarrow> frame list \<Rightarrow> element option \<Rightarrow> pstate" where
  "open_tag raw as stack root =
     (if stack = [] \<and> root \<noteq> None then Fail ParseError
      else if \<not> distinct (map fst as) then Fail ParseError
      else
        (case foldr bind_attr (rev as) (Inr (case stack of [] \<Rightarrow> [] | f # _ \<Rightarrow> f_ns f)) of
           Inl e \<Rightarrow> Fail e
         | Inr env \<Rightarrow>
            (case expand_name env raw of
               Inl e \<Rightarrow> Fail e
             | Inr t \<Rightarrow> St (Content 0) (Frame raw t env [] [] # stack) root)))"

definition close_tag :: "string \<Rightarrow> frame list \<Rightarrow> element option \<Rightarrow> pstate" where
  "close_tag raw stack root =
     (case stack of
        [] \<Rightarrow> Fail ParseError
      | f # rest \<Rightarrow>
         if f_raw f \<noteq> raw then Fail ParseError
         else
           (let el = Element (f_tag f) (if f_text f = [] then None else Some (f_text f)) (f_kids f) in
            case rest of
              [] \<Rightarrow> St (Content 0) [] (Some el)
            | g # gs \<Rightarrow>
                St (Content 0) (Frame (f_raw g) (f_tag g) (f_ns g) (f_text g) (f_kids g @ [el]) # gs) root))"

text \<open>Character data goes to the text of the innermost open element until its first child.\<close>

definition add_data :: "string \<Rightarrow> frame list \<Rightarrow> frame list" where
  "add_data s stack =
     (case stack of
        [] \<Rightarrow> []
      | f # rest \<Rightarrow>
         (if f_kids f = [] then Frame (f_raw f) (f_tag f) (f_ns f) (f_text f @ s) [] # rest
          else stack))"

definition entity_char :: "string \<Rightarrow> char option" where
  "entity_char n =
     (if n = ''amp'' then Some (CHR ''&'')
      else if n = ''lt'' then Some (CHR ''<'')
      else if n = ''gt'' then Some (CHR ''>'')
      else if n = ''quot'' then Some (CHR 0x22)
      else if n = ''apos'' then Some (CHR 0x27)
      else None)"

fun step_mode :: "mode \<Rightarrow> frame list \<Rightarrow> element option \<Rightarrow> char \<Rightarrow> pstate" where
  "step_mode (Content k) stack root c =
     (if c = CHR ''<'' then St Lt stack root
      else if stack = [] then (if is_ws c then St (Content 0) stack root else Fail ParseError)
      else if c = CHR ''&'' then St (Ent []) stack root
      else if c = CHR '']'' then St (Content (min 2 (Suc k))) (add_data [c] stack) root
      else if c = CHR ''>'' \<and> 2 \<le> k then Fail Unmodelled
      else St (Content 0) (add_data [c] stack) root)"
| "step_mode Lt stack root c =
     (if c = CHR ''/'' then (if stack = [] then Fail ParseError else St (EndName []) stack root)
      else if c = CHR ''!'' then St (Bang []) stack root
      else if c = CHR ''?'' then Fail Unmodelled
      else if name_start c then St (StartName [c]) stack root
      else Fail ParseError)"
| "step_mode (StartName n) stack root c =
     (if name_char c then St (StartName (n @ [c])) stack root
      else if is_ws c then St (InTag n []) stack root
      else if c = CHR ''>'' then open_tag n [] stack root
      else if c = CHR ''/'' then St (EmptySlash n []) stack root
      else Fail ParseError)"
| "step_mode (InTag n as) stack root c =
     (if is_ws c then St (InTag n as) stack root
      else if c = CHR ''>'' then open_tag n as stack root
      else if c = CHR ''/'' then St (EmptySlash n as) stack root
      else if name_start c then St (AttrName n as [c]) stack root
      else Fail ParseError)"
| "step_mode (AttrName n as a) stack root c =
     (if name_char c then St (AttrName n as (a @ [c])) stack root
      else if c = CHR ''='' then St (AttrQuote n as a) stack root
      else if is_ws c then St (AttrEq n as a) stack root
      else Fail ParseError)"
| "step_mode (AttrEq n as a) stack root c =
     (if is_ws c then St (AttrEq n as a) stack root
      else if c = CHR ''='' then St (AttrQuote n as a) stack root
      else Fail ParseError)"
| "step_mode (AttrQuote n as a) stack root c =
     (if is_ws c then St (AttrQuote n as a) stack root
      else if c = CHR 0x22 \<or> c = CHR 0x27 then St (AttrVal n as a c []) stack root
      else Fail ParseError)"
| "step_mode (AttrVal n as a q v) stack root c =
     (if c = q then St (AfterVal n (as @ [(a, v)])) stack root
      else if c = CHR ''<'' then Fail ParseError
      else if c = CHR ''&'' \<or> c = CHR 0x09 \<or> c = CHR 0x0A then Fail Unmodelled
      else St (AttrVal n as a q (v @ [c])) stack root)"
| "step_mode (AfterVal n as) stack root c =
     (if is_ws c then St (InTag n as) stack root
      else if c = CHR ''>'' then open_tag n as stack root
      else if c = CHR ''/'' then St (EmptySlash n as) stack root
      else Fail ParseError)"
| "step_mode (EmptySlash n as) stack root c =
     (if c = CHR ''>'' then
        (case open_tag n as stack root of
           St _ stack' root' \<Rightarrow> close_tag n stack' root'
         | Fail e \<Rightarrow> Fail e)
      else Fail ParseError)"
| "step_mode (EndName n) stack root c =
     (if (if n = [] then name_start c else name_char c) then St (EndName (n @ [c])) stack root
      else if n = [] then Fail ParseError
      else if is_ws c then St (EndWs n) stack root
      else if c = CHR ''>'' then close_tag n stack root
      else Fail ParseError)"
| "step_mode (EndWs n) stack root c =
     (if is_ws c then St (EndWs n) stack root
      else if c = CHR ''>'' then close_tag n stack root
      else Fail ParseError)"
| "step_mode (Bang s) stack root c =
     (if s @ [c] = ''--'' then St (Comment 0) stack root
      else if s @ [c] = ''[CDATA['' then (if stack = [] then Fail ParseError else St (CData 0) stack root)
      else if strict_prefix (s @ [c]) ''--'' \<or> strict_prefix (s @ [c]) ''[CDATA[''
      then St (Bang (s @ [c])) stack root
      else Fail Unmodelled)"
| "step_mode (Comment k) stack root c =
     (if k = 2 then (if c = CHR ''>'' then St (Content 0) stack root else Fail ParseError)
      else if c = CHR ''-'' then St (Comment (Suc k)) stack root
      else St (Comment 0) stack root)"
| "step_mode (CData k) stack root c =
     (if c = CHR '']'' then
        (if k = 2 then St (CData 2) (add_data [c] stack) root else St (CData (Suc k)) stack root)
      else if c = CHR ''>'' \<and> k = 2 then St (Content 0) stack root
      else St (CData 0) (add_data (replicate k (CHR '']'') @ [c]) stack) root)"
| "step_mode (Ent s) stack root c =
     (if c = CHR '';'' then
        (if s = [] then Fail ParseError
         else (case entity_char s of
                 None \<Rightarrow> Fail Unmodelled
               | Some d \<Rightarrow> St (Content 0) (add_data [d] stack) root))
      else if s = [] \<and> c = CHR ''#'' then Fail Unmodelled
      else if (if s = [] then name_start c else name_char c) then St (Ent (s @ [c])) stack root
      else Fail ParseError)"

fun step :: "pstate \<Rightarrow> char \<Rightarrow> pstate" where
  "step (Fail e) c = Fail e"
| "step (St m stack root) c = (if modelled_char c then step_mode m stack root c else Fail Unmodelled)"

definition finish :: "pstate \<Rightarrow> error + element" where
  "finish s =
     (case s of
        Fail e \<Rightarrow> Inl e
      | St m stack root \<Rightarrow>
         (case (m, stack, root) of
            (Content _, [], Some el) \<Rightarrow> Inr el
          | _ \<Rightarrow> Inl ParseError))"

definition xml_decls :: "string list" where
  \<open>xml_decls = [''<?xml version="1.0" encoding="UTF-8"?>'', ''<?xml version="1.0"?>'']\<close>

definition strip_decl :: "string \<Rightarrow> string" where
  "strip_decl s =
     (case filter (\<lambda>d. prefix d s) xml_decls of
        [] \<Rightarrow> s
      | d # _ \<Rightarrow> drop (length d) s)"

definition ET_parse :: "string \<Rightarrow> error + element" where
  "ET_parse s = finish (foldl step (St (Content 0) [] None) (strip_decl s))"

subsection \<open>Element search (\<^verbatim>\<open>Element.find\<close>)\<close>

text \<open>
  \<^verbatim>\<open>elem.iter(tag)\<close> lists the element itself and its descendants with that tag in document
  order. The path \<^verbatim>\<open>.//tag\<close> selects the descendants proper, \<^verbatim>\<open>tag\<close> alone the children,
  and \<^verbatim>\<open>.//a/b\<close> the \<open>b\<close> children of the \<open>a\<close> descendants; \<^verbatim>\<open>find\<close> returns the first
  selected element or \<^verbatim>\<open>None\<close>.
\<close>

fun iter :: "string \<Rightarrow> element \<Rightarrow> element list" where
  "iter t (Element tg tx ks) =
     (if tg = t then [Element tg tx ks] else []) @ concat (map (iter t) ks)"

definition descendants :: "string \<Rightarrow> element \<Rightarrow> element list" where
  "descendants t e = concat (map (iter t) (echildren e))"

definition children_named :: "string \<Rightarrow> element \<Rightarrow> element list" where
  "children_named t e = filter (\<lambda>k. etag k = t) (echildren e)"

definition first :: "'a list \<Rightarrow> 'a option" where
  "first xs = (case xs of [] \<Rightarrow> None | x # _ \<Rightarrow> Some x)"

definition kml :: "string \<Rightarrow> string" where
  "kml l = ''{'' @ kml_ns @ ''}'' @ l"

definition find_descendant :: "string \<Rightarrow> element \<Rightarrow> element option" where
  "find_descendant t e = first (descendants t e)"

definition find_child :: "string \<Rightarrow> element \<Rightarrow> element option" where
  "find_child t e = first (children_named t e)"

definition find_descendant_child :: "string \<Rightarrow> string \<Rightarrow> element \<Rightarrow> element option" where
  "find_descendant_child a b e = first (concat (map (children_named b) (descendants a e)))"

subsection \<open>Files, archives and the file system\<close>

text \<open>
  A file holds either bytes that are not a zip archive or a zip archive, given by its
  entries: name, modification time and content. A modification time is a number in the
  two-second units of the zip format. The file system is a tree; a path is the list of
  names from the root. Permissions, links and devices are not modelled.
\<close>

datatype content = Data string | Zip "(string \<times> nat \<times> content) list"

type_synonym entry = "string \<times> nat \<times> content"

datatype node = File content nat | Dir "(string \<times> node) list"

type_synonym path = "string list"

fun lookup :: "node \<Rightarrow> path \<Rightarrow> node option" where
  "lookup n [] = Some n"
| "lookup (File c t) (x # xs) = None"
| "lookup (Dir es) (x # xs) = (case map_of es x of None \<Rightarrow> None | Some m \<Rightarrow> lookup m xs)"

text \<open>\<open>put p new\<close> stores \<open>new\<close> at \<open>p\<close> when the parent of \<open>p\<close> is a directory.\<close>

fun put :: "path \<Rightarrow> node \<Rightarrow> node \<Rightarrow> node" where
  "put [] new n = new"
| "put (x # xs) new (File c t) = File c t"
| "put (x # xs) new (Dir es) =
     (case map_of es x of
        None \<Rightarrow> if xs = [] then Dir (AList.update x new es) else Dir es
      | Some m \<Rightarrow> Dir (AList.update x (put xs new m) es))"

fun remove :: "path \<Rightarrow> node \<Rightarrow> node" where
  "remove [] n = n"
| "remove (x # xs) (File c t) = File c t"
| "remove (x # xs) (Dir es) =
     (if xs = [] then Dir (AList.delete x es)
      else (case map_of es x of
              None \<Rightarrow> Dir es
            | Some m \<Rightarrow> Dir (AList.update x (remove xs m) es)))"

definition os_path_exists :: "node \<Rightarrow> path \<Rightarrow> bool" where
  "os_path_exists fs p \<longleftrightarrow> lookup fs p \<noteq> None"

definition is_dir :: "node \<Rightarrow> path \<Rightarrow> bool" where
  "is_dir fs p \<longleftrightarrow> (case lookup fs p of Some (Dir es) \<Rightarrow> True | _ \<Rightarrow> False)"

text \<open>
  \<^verbatim>\<open>os.listdir\<close> returns the names of a directory in an order of the operating system's own.
  The order is a parameter of the model: \<open>rank\<close> gives every name its place, and a listing is
  sorted by it. Every order of the names of a directory is the listing under some \<open>rank\<close>.
\<close>

type_synonym listing_order = "string \<Rightarrow> nat"

definition os_listdir :: "listing_order \<Rightarrow> node \<Rightarrow> path \<Rightarrow> error + string list" where
  "os_listdir rank fs p =
     (case lookup fs p of Some (Dir es) \<Rightarrow> Inr (sort_key rank (map fst es)) | _ \<Rightarrow> Inl OSError)"

text \<open>\<^verbatim>\<open>os.makedirs(p, exist_ok=True)\<close>: fails when a file is in the way.\<close>

fun os_makedirs :: "path \<Rightarrow> node \<Rightarrow> error + node" where
  "os_makedirs [] (Dir es) = Inr (Dir es)"
| "os_makedirs [] (File c t) = Inl OSError"
| "os_makedirs (x # xs) (File c t) = Inl OSError"
| "os_makedirs (x # xs) (Dir es) =
     (case os_makedirs xs (case map_of es x of None \<Rightarrow> Dir [] | Some m \<Rightarrow> m) of
        Inl e \<Rightarrow> Inl e
      | Inr m' \<Rightarrow> Inr (Dir (AList.update x m' es)))"

definition os_mkdir :: "path \<Rightarrow> node \<Rightarrow> error + node" where
  "os_mkdir p fs =
     (if p \<noteq> [] \<and> is_dir fs (butlast p) \<and> \<not> os_path_exists fs p then Inr (put p (Dir []) fs)
      else Inl OSError)"

definition shutil_rmtree :: "path \<Rightarrow> node \<Rightarrow> error + node" where
  "shutil_rmtree p fs = (if p \<noteq> [] \<and> is_dir fs p then Inr (remove p fs) else Inl OSError)"

text \<open>\<^verbatim>\<open>open(p, "w")\<close> followed by writing \<open>c\<close> and closing, at time \<open>now\<close>.\<close>

definition write_file :: "path \<Rightarrow> content \<Rightarrow> nat \<Rightarrow> node \<Rightarrow> error + node" where
  "write_file p c now fs =
     (if p \<noteq> [] \<and> is_dir fs (butlast p) \<and> \<not> is_dir fs p then Inr (put p (File c now) fs)
      else Inl OSError)"

text \<open>
  A path string from a document is resolved as the operating system does, component by
  component from the directory \<open>cur\<close>: every directory passed through has to exist.
\<close>

fun split_on :: "char \<Rightarrow> string \<Rightarrow> string list" where
  "split_on d [] = [[]]"
| "split_on d (x # xs) =
     (if x = d then [] # split_on d xs else (x # hd (split_on d xs)) # tl (split_on d xs))"

fun walk :: "node \<Rightarrow> path \<Rightarrow> string list \<Rightarrow> path option" where
  "walk fs cur [] = (if os_path_exists fs cur then Some cur else None)"
| "walk fs cur (c # cs) =
     (if \<not> is_dir fs cur then None
      else if c = [] \<or> c = ''.'' then walk fs cur cs
      else if c = ''..'' then walk fs (butlast cur) cs
      else if os_path_exists fs (cur @ [c]) then walk fs (cur @ [c]) cs
      else None)"

definition resolve :: "node \<Rightarrow> path \<Rightarrow> string \<Rightarrow> path option" where
  "resolve fs base s =
     walk fs (if s \<noteq> [] \<and> hd s = CHR ''/'' then [] else base) (split_on (CHR ''/'') s)"

text \<open>
  \<^verbatim>\<open>os.path.join(dir, name)\<close> for a name taken from a directory listing: one more component.
  The script can turn such a name into the empty string, which gives the directory itself.
\<close>

definition child :: "path \<Rightarrow> string \<Rightarrow> error + path" where
  "child dir name =
     (if name = [] then Inr dir
      else if name = ''.'' \<or> name = ''..'' \<or> CHR ''/'' \<in> set name then Inl Unmodelled
      else Inr (dir @ [name]))"

subsection \<open>String operations of the script\<close>

definition lower_char :: "char \<Rightarrow> char" where
  "lower_char c =
     (if c \<in> set ''ABCDEFGHIJKLMNOPQRSTUVWXYZ'' then char_of (of_char c + (32::nat)) else c)"

definition lower :: "string \<Rightarrow> string" where
  "lower s = map lower_char s"

definition endswith :: "string \<Rightarrow> string \<Rightarrow> bool" where
  "endswith s suf \<longleftrightarrow> suffix suf s"

text \<open>
  \<^verbatim>\<open>str.lower\<close> is modelled on ASCII; a listed name with another byte is outside the model.
\<close>

definition ascii_name :: "string \<Rightarrow> bool" where
  "ascii_name s = list_all (\<lambda>c. (of_char c :: nat) < 128) s"

text \<open>\<^verbatim>\<open>s.replace(old, "")\<close>: every occurrence of \<open>old\<close>, left to right, is dropped.\<close>

function remove_all :: "string \<Rightarrow> string \<Rightarrow> string" where
  "remove_all old [] = []"
| "remove_all old (x # xs) =
     (if old \<noteq> [] \<and> prefix old (x # xs) then remove_all old (drop (length old) (x # xs))
      else x # remove_all old xs)"
  by pat_completeness auto
termination
  by (relation "measure (\<lambda>(old, s). length s)") auto

text \<open>How an f-string renders a value that is a string or \<^verbatim>\<open>None\<close>.\<close>

definition py_str :: "string option \<Rightarrow> string" where
  "py_str v = (case v of None \<Rightarrow> ''None'' | Some s \<Rightarrow> s)"

text \<open>Truth value of a string or \<^verbatim>\<open>None\<close>: \<^verbatim>\<open>not v\<close>.\<close>

definition falsy :: "string option \<Rightarrow> bool" where
  "falsy v \<longleftrightarrow> v = None \<or> v = Some []"

subsection \<open>Zip archives (\<^verbatim>\<open>zipfile\<close>)\<close>

text \<open>\<^verbatim>\<open>zipfile.ZipFile(p, "r")\<close>: the entries of the archive at \<open>p\<close>.\<close>

definition zip_read :: "node \<Rightarrow> path \<Rightarrow> error + entry list" where
  "zip_read fs p =
     (case lookup fs p of
        Some (File (Zip es) t) \<Rightarrow> Inr es
      | Some (File (Data s) t) \<Rightarrow> Inl BadZipFile
      | _ \<Rightarrow> Inl OSError)"

text \<open>
  \<^verbatim>\<open>extractall\<close> writes each member under the target directory. The member name is split at
  \<^verbatim>\<open>/\<close>, and empty, \<^verbatim>\<open>.\<close> and \<^verbatim>\<open>..\<close> components are dropped; missing parent directories are
  created; a name ending in \<^verbatim>\<open>/\<close> is a directory. The extracted file gets the time of the
  extraction, not the time stored in the archive.
\<close>

definition member_parts :: "string \<Rightarrow> string list" where
  "member_parts name =
     filter (\<lambda>x. x \<noteq> [] \<and> x \<noteq> ''.'' \<and> x \<noteq> ''..'') (split_on (CHR ''/'') name)"

definition extract_member :: "path \<Rightarrow> nat \<Rightarrow> entry \<Rightarrow> node \<Rightarrow> error + node" where
  "extract_member target now e fs =
     (let name = fst e; c = snd (snd e); tp = target @ member_parts name in
      case (if os_path_exists fs (butlast tp) then Inr fs else os_makedirs (butlast tp) fs) of
        Inl err \<Rightarrow> Inl err
      | Inr fs1 \<Rightarrow>
         if name \<noteq> [] \<and> last name = CHR ''/'' then
           (if is_dir fs1 tp then Inr fs1 else os_mkdir tp fs1)
         else if member_parts name = [] then Inl Unmodelled
         else write_file tp c now fs1)"

fun extract_members :: "path \<Rightarrow> nat \<Rightarrow> entry list \<Rightarrow> node \<Rightarrow> error option \<times> node" where
  "extract_members target now [] fs = (None, fs)"
| "extract_members target now (e # es) fs =
     (case extract_member target now e fs of
        Inl err \<Rightarrow> (Some err, fs)
      | Inr fs1 \<Rightarrow> extract_members target now es fs1)"

text \<open>
  \<^verbatim>\<open>ZipFile.write(filename, arcname)\<close> reads the file and makes an entry that carries the
  file's modification time. The entry is stored under the normalised archive name:
  \<^verbatim>\<open>os.path.normpath\<close> drops empty and \<^verbatim>\<open>.\<close> components and resolves \<^verbatim>\<open>..\<close> against the component
  before it, and leading separators are removed.
\<close>

fun norm_comps :: "bool \<Rightarrow> string list \<Rightarrow> string list \<Rightarrow> string list" where
  "norm_comps initial_slashes new_comps [] = new_comps"
| "norm_comps initial_slashes new_comps (c # cs) =
     norm_comps initial_slashes
       (if c = [] \<or> c = ''.'' then new_comps
        else if c \<noteq> ''..'' \<or> (\<not> initial_slashes \<and> new_comps = [])
                \<or> (new_comps \<noteq> [] \<and> last new_comps = ''..'')
        then new_comps @ [c]
        else butlast new_comps)
       cs"

fun join_slash :: "string list \<Rightarrow> string" where
  "join_slash [] = []"
| "join_slash [x] = x"
| "join_slash (x # y # ys) = x @ CHR ''/'' # join_slash (y # ys)"

text \<open>
  The archive name after normalisation and removal of leading separators; it is empty only
  for a name that normalises to the root directory.
\<close>

definition zip_arcname :: "string \<Rightarrow> string" where
  "zip_arcname s =
     (let initial_slashes = (s \<noteq> [] \<and> hd s = CHR ''/'');
          comps = norm_comps initial_slashes [] (split_on (CHR ''/'') s)
      in if comps = [] \<and> \<not> initial_slashes then ''.'' else join_slash comps)"

definition zip_entry :: "node \<Rightarrow> path option \<Rightarrow> string \<Rightarrow> error + entry" where
  "zip_entry fs p arcname =
     (case p of
        None \<Rightarrow> Inl OSError
      | Some q \<Rightarrow>
         (case lookup fs q of
            Some (File c t) \<Rightarrow>
              if zip_arcname arcname = [] then Inl IndexError else Inr (zip_arcname arcname, t, c)
          | Some (Dir es) \<Rightarrow> Inl Unmodelled
          | None \<Rightarrow> Inl OSError))"

subsection \<open>The script\<close>

text \<open>
  \<open>sf\<close> is \<^verbatim>\<open>SCRIPT_FOLDER\<close>, the directory of the script, \<open>now\<close> the time of the run and
  \<open>rank\<close> the order of directory listings.
\<close>

definition OUTPUT_FOLDER :: "path \<Rightarrow> path" where
  "OUTPUT_FOLDER sf = sf @ [''processed_kmz'']"

definition TEMP_FOLDER :: "path \<Rightarrow> path" where
  "TEMP_FOLDER sf = sf @ [''temp_extract'']"

text \<open>Lines 52 to 59, run when the script is loaded.\<close>

definition reset_folder :: "path \<Rightarrow> node \<Rightarrow> error + node" where
  "reset_folder p fs =
     (case (if os_path_exists fs p then shutil_rmtree p fs else Inr fs) of
        Inl e \<Rightarrow> Inl e
      | Inr fs1 \<Rightarrow> os_makedirs p fs1)"

definition setup_folders :: "path \<Rightarrow> node \<Rightarrow> error option \<times> node" where
  "setup_folders sf fs =
     (case reset_folder (OUTPUT_FOLDER sf) fs of
        Inl e \<Rightarrow> (Some e, fs)
      | Inr fs1 \<Rightarrow>
         (case reset_folder (TEMP_FOLDER sf) fs1 of
            Inl e \<Rightarrow> (Some e, fs1)
          | Inr fs2 \<Rightarrow> (None, fs2)))"

definition extract_zip :: "path \<Rightarrow> nat \<Rightarrow> path \<Rightarrow> node \<Rightarrow> error option \<times> node" where
  "extract_zip sf now zip_path fs =
     (case zip_read fs zip_path of
        Inl e \<Rightarrow> (Some e, fs)
      | Inr es \<Rightarrow> extract_members (TEMP_FOLDER sf) now es fs)"

definition extract_kmz :: "nat \<Rightarrow> path \<Rightarrow> path \<Rightarrow> node \<Rightarrow> error option \<times> node" where
  "extract_kmz now kmz_path extract_to fs =
     (case zip_read fs kmz_path of
        Inl e \<Rightarrow> (Some e, fs)
      | Inr es \<Rightarrow> extract_members extract_to now es fs)"

text \<open>\<^verbatim>\<open>ET.parse(kml_path)\<close>; the bytes of a zip archive are not an XML document.\<close>

definition ET_parse_file :: "node \<Rightarrow> path \<Rightarrow> error + element" where
  "ET_parse_file fs p =
     (case lookup fs p of
        Some (File (Data s) t) \<Rightarrow> ET_parse s
      | Some (File (Zip es) t) \<Rightarrow> Inl ParseError
      | _ \<Rightarrow> Inl OSError)"

type_synonym coordinates = "string option \<times> string option \<times> string option \<times> string option"

type_synonym parsed = "string option \<times> string option \<times> coordinates option"

definition text_of :: "element option \<Rightarrow> error + string option" where
  "text_of r = (case r of None \<Rightarrow> Inl AttributeError | Some e \<Rightarrow> Inr (etext e))"

definition parse_kml :: "node \<Rightarrow> path \<Rightarrow> error + parsed" where
  "parse_kml fs kml_path =
     (case ET_parse_file fs kml_path of
        Inl e \<Rightarrow> Inl e
      | Inr root \<Rightarrow>
     (case text_of (find_descendant (kml ''name'') root) of
        Inl e \<Rightarrow> Inl e
      | Inr doc_name \<Rightarrow>
     (case find_descendant (kml ''GroundOverlay'') root of
        None \<Rightarrow> Inr (None, None, None)
      | Some ground_overlay \<Rightarrow>
     (case text_of (find_descendant_child (kml ''Icon'') (kml ''href'') ground_overlay) of
        Inl e \<Rightarrow> Inl e
      | Inr None \<Rightarrow> Inl TypeError
      | Inr (Some image_href) \<Rightarrow>
         if resolve fs (butlast kml_path) image_href = None then Inr (None, None, None)
         else
     (case find_descendant (kml ''LatLonBox'') ground_overlay of
        None \<Rightarrow> Inl AttributeError
      | Some latlonbox \<Rightarrow>
     (case text_of (find_child (kml ''north'') latlonbox) of Inl e \<Rightarrow> Inl e | Inr north \<Rightarrow>
     (case text_of (find_child (kml ''south'') latlonbox) of Inl e \<Rightarrow> Inl e | Inr south \<Rightarrow>
     (case text_of (find_child (kml ''east'') latlonbox) of Inl e \<Rightarrow> Inl e | Inr east \<Rightarrow>
     (case text_of (find_child (kml ''west'') latlonbox) of Inl e \<Rightarrow> Inl e | Inr west \<Rightarrow>
        Inr (doc_name, Some image_href, Some (north, south, east, west)))))))))))"

definition kml_content :: "string \<Rightarrow> string \<Rightarrow> coordinates \<Rightarrow> string" where
  \<open>kml_content doc_name image_href coordinates =
     (case coordinates of (north, south, east, west) \<Rightarrow>
      ''<?xml version="1.0" encoding="UTF-8"?>\<newline><kml xmlns="http://www.opengis.net/kml/2.2">\<newline><Document>\<newline>    <name>''
      @ doc_name @
      ''</name>\<newline>    <open>1</open>\<newline>\<newline>    <GroundOverlay>\<newline>        <name>Map</name>\<newline>        <drawOrder>100</drawOrder>  <!-- Forces overlay to stay visible on Android -->\<newline>        <Icon>\<newline>            <href>''
      @ image_href @
      ''</href>\<newline>        </Icon>\<newline>        <LatLonBox>\<newline>            <north>''
      @ py_str north @
      ''</north>\<newline>            <south>''
      @ py_str south @
      ''</south>\<newline>            <east>''
      @ py_str east @
      ''</east>\<newline>            <west>''
      @ py_str west @
      ''</west>\<newline>        </LatLonBox>\<newline>        <Lod>\<newline>            <minLodPixels>64</minLodPixels>\<newline>            <maxLodPixels>-1</maxLodPixels>\<newline>        </Lod>\<newline>    </GroundOverlay>\<newline>\<newline></Document>\<newline></kml>'')\<close>

definition create_clean_kml ::
  "path \<Rightarrow> string \<Rightarrow> string \<Rightarrow> coordinates \<Rightarrow> nat \<Rightarrow> node \<Rightarrow> error + node" where
  "create_clean_kml output_kml doc_name image_href coordinates now fs =
     write_file output_kml (Data (kml_content doc_name image_href coordinates)) now fs"

text \<open>
  \<^verbatim>\<open>repackage_kmz\<close>: the output file is opened first, the two entries are read and added,
  and the archive is written when the \<^verbatim>\<open>with\<close> block is left, also by an exception. An image
  reference that resolves to the output file makes the archive read itself while it is being
  written; what it reads then is not modelled.
\<close>

definition repackage_kmz :: "path \<Rightarrow> path \<Rightarrow> string \<Rightarrow> nat \<Rightarrow> node \<Rightarrow> error option \<times> node" where
  "repackage_kmz temp_folder output_kmz image_file now fs =
     (case write_file output_kmz (Data []) now fs of
        Inl e \<Rightarrow> (Some e, fs)
      | Inr fs1 \<Rightarrow>
         (case zip_entry fs1 (Some (temp_folder @ [''cleaned.kml''])) ''doc.kml'' of
            Inl e \<Rightarrow> (Some e, put output_kmz (File (Zip []) now) fs1)
          | Inr e1 \<Rightarrow>
             if resolve fs1 temp_folder image_file = Some output_kmz
             then (Some Unmodelled, put output_kmz (File (Zip [e1]) now) fs1)
             else
             (case zip_entry fs1 (resolve fs1 temp_folder image_file) image_file of
                Inl e \<Rightarrow> (Some e, put output_kmz (File (Zip [e1]) now) fs1)
              | Inr e2 \<Rightarrow> (None, put output_kmz (File (Zip [e1, e2]) now) fs1))))"

text \<open>
  The state of \<^verbatim>\<open>process_files\<close>: the file system and the text written to the log so far.
  The log is buffered; it reaches the log file when the file is closed.
\<close>

record state =
  files :: node
  logged :: string

definition path_str :: "path \<Rightarrow> string" where
  "path_str p = concat (map (\<lambda>c. CHR ''/'' # c) p)"

text \<open>\<^verbatim>\<open>shutil.rmtree(kmz_extract_folder)\<close> as the last step of an iteration.\<close>

definition drop_scratch :: "path \<Rightarrow> node \<Rightarrow> state \<Rightarrow> error option \<times> state" where
  "drop_scratch kmz_extract_folder fs st =
     (case shutil_rmtree kmz_extract_folder fs of
        Inl e \<Rightarrow> (Some e, st\<lparr>files := fs\<rparr>)
      | Inr fs' \<Rightarrow> (None, st\<lparr>files := fs'\<rparr>))"

text \<open>
  The body of the second loop for one name that ends in \<^verbatim>\<open>.kmz\<close>, in two parts. An exception
  leaves the file system as it was when it was raised.

  Lines 165 to 172: the scratch directory of the item is made and the archive is unpacked
  into it. The result is the scratch directory and the file system after unpacking.
\<close>

definition unpack_kmz ::
  "path \<Rightarrow> nat \<Rightarrow> string \<Rightarrow> node \<Rightarrow> error \<times> node + path \<times> node" where
  "unpack_kmz sf now kmz_file fs =
     (case child (TEMP_FOLDER sf) kmz_file of
        Inl e \<Rightarrow> Inl (e, fs)
      | Inr kmz_path \<Rightarrow>
     (case child (TEMP_FOLDER sf) (remove_all ''.kmz'' kmz_file) of
        Inl e \<Rightarrow> Inl (e, fs)
      | Inr kmz_extract_folder \<Rightarrow>
     (case os_makedirs kmz_extract_folder fs of
        Inl e \<Rightarrow> Inl (e, fs)
      | Inr fs1 \<Rightarrow>
     (case extract_kmz now kmz_path kmz_extract_folder fs1 of
        (Some e, fs2) \<Rightarrow> Inl (e, fs2)
      | (None, fs2) \<Rightarrow> Inr (kmz_extract_folder, fs2)))))"

text \<open>Lines 174 to 202: the document is located and parsed, and the new archive is made.\<close>

definition convert_kmz ::
  "path \<Rightarrow> nat \<Rightarrow> string \<Rightarrow> path \<Rightarrow> node \<Rightarrow> state \<Rightarrow> error option \<times> state" where
  "convert_kmz sf now kmz_file kmz_extract_folder fs2 st =
     (if \<not> os_path_exists fs2 (kmz_extract_folder @ [''doc.kml''])
      then drop_scratch kmz_extract_folder fs2 st
      else
     (case parse_kml fs2 (kmz_extract_folder @ [''doc.kml'']) of
        Inl e \<Rightarrow> (Some e, st\<lparr>files := fs2\<rparr>)
      | Inr (doc_name, image_href, coordinates) \<Rightarrow>
         if falsy doc_name \<or> falsy image_href then drop_scratch kmz_extract_folder fs2 st
         else
     (case (doc_name, image_href, coordinates) of
        (Some d, Some h, Some coords) \<Rightarrow>
     (case create_clean_kml (kmz_extract_folder @ [''cleaned.kml'']) d h coords now fs2 of
        Inl e \<Rightarrow> (Some e, st\<lparr>files := fs2\<rparr>)
      | Inr fs3 \<Rightarrow>
     (case child (OUTPUT_FOLDER sf) kmz_file of
        Inl e \<Rightarrow> (Some e, st\<lparr>files := fs3\<rparr>)
      | Inr output_kmz_path \<Rightarrow>
     (case repackage_kmz kmz_extract_folder output_kmz_path h now fs3 of
        (Some e, fs4) \<Rightarrow> (Some e, st\<lparr>files := fs4\<rparr>)
      | (None, fs4) \<Rightarrow>
         drop_scratch kmz_extract_folder fs4
           (st\<lparr>logged := logged st @ kmz_file @ '' -> '' @ path_str output_kmz_path
                             @ ''\<newline>''\<rparr>))))
      | _ \<Rightarrow> (Some TypeError, st\<lparr>files := fs2\<rparr>))))"

definition process_kmz :: "path \<Rightarrow> nat \<Rightarrow> string \<Rightarrow> state \<Rightarrow> error option \<times> state" where
  "process_kmz sf now kmz_file st =
     (case unpack_kmz sf now kmz_file (files st) of
        Inl (e, fs) \<Rightarrow> (Some e, st\<lparr>files := fs\<rparr>)
      | Inr (kmz_extract_folder, fs2) \<Rightarrow> convert_kmz sf now kmz_file kmz_extract_folder fs2 st)"

fun process_kmz_list :: "path \<Rightarrow> nat \<Rightarrow> string list \<Rightarrow> state \<Rightarrow> error option \<times> state" where
  "process_kmz_list sf now [] st = (None, st)"
| "process_kmz_list sf now (kmz_file # rest) st =
     (if \<not> ascii_name kmz_file then (Some Unmodelled, st)
      else if endswith (lower kmz_file) ''.kmz'' then
        (case process_kmz sf now kmz_file st of
           (Some e, st') \<Rightarrow> (Some e, st')
         | (None, st') \<Rightarrow> process_kmz_list sf now rest st')
      else process_kmz_list sf now rest st)"

text \<open>The first loop (lines 153 to 157).\<close>

fun extract_zip_list :: "path \<Rightarrow> nat \<Rightarrow> string list \<Rightarrow> node \<Rightarrow> error option \<times> node" where
  "extract_zip_list sf now [] fs = (None, fs)"
| "extract_zip_list sf now (zip_file # rest) fs =
     (if \<not> ascii_name zip_file then (Some Unmodelled, fs)
      else if endswith (lower zip_file) ''.zip'' then
        (case child sf zip_file of
           Inl e \<Rightarrow> (Some e, fs)
         | Inr zip_path \<Rightarrow>
            (case extract_zip sf now zip_path fs of
               (Some e, fs') \<Rightarrow> (Some e, fs')
             | (None, fs') \<Rightarrow> extract_zip_list sf now rest fs'))
      else extract_zip_list sf now rest fs)"

definition log_file :: "path \<Rightarrow> path" where
  "log_file sf = OUTPUT_FOLDER sf @ [''processed_kmz_log.txt'']"

definition log_header :: string where
  "log_header = ''Processed KMZ Files:\<newline>''"

text \<open>The two loops, inside the \<^verbatim>\<open>with\<close> block of the log file.\<close>

definition process_body :: "listing_order \<Rightarrow> path \<Rightarrow> nat \<Rightarrow> state \<Rightarrow> error option \<times> state" where
  "process_body rank sf now st =
     (case os_listdir rank (files st) sf of
        Inl e \<Rightarrow> (Some e, st)
      | Inr names \<Rightarrow>
     (case extract_zip_list sf now names (files st) of
        (Some e, fs1) \<Rightarrow> (Some e, st\<lparr>files := fs1\<rparr>)
      | (None, fs1) \<Rightarrow>
     (case os_listdir rank fs1 (TEMP_FOLDER sf) of
        Inl e \<Rightarrow> (Some e, st\<lparr>files := fs1\<rparr>)
      | Inr kmz_names \<Rightarrow> process_kmz_list sf now kmz_names (st\<lparr>files := fs1\<rparr>))))"

text \<open>
  Lines 204 to 223 remove the scratch folder; failures there are caught, and with no
  permissions in the model nothing fails.
\<close>

definition cleanup :: "path \<Rightarrow> node \<Rightarrow> node" where
  "cleanup sf fs = (if is_dir fs (TEMP_FOLDER sf) then remove (TEMP_FOLDER sf) fs else fs)"

text \<open>
  \<^verbatim>\<open>process_files\<close>: the result is the exception that ended the run, if any, and the file
  system it left. Leaving the \<^verbatim>\<open>with\<close> block closes the log file, which stores the log.
\<close>

definition process_files :: "listing_order \<Rightarrow> path \<Rightarrow> nat \<Rightarrow> node \<Rightarrow> error option \<times> node" where
  "process_files rank sf now fs =
     (case write_file (log_file sf) (Data []) now fs of
        Inl e \<Rightarrow> (Some e, fs)
      | Inr fs0 \<Rightarrow>
         (case process_body rank sf now \<lparr>files = fs0, logged = log_header\<rparr> of
            (r, st) \<Rightarrow>
              (let closed = put (log_file sf) (File (Data (logged st)) now) (files st) in
               case r of
                 Some e \<Rightarrow> (Some e, closed)
               | None \<Rightarrow> (None, cleanup sf closed))))"

text \<open>One run of the script: the folders are reset, then \<^verbatim>\<open>process_files\<close> runs.\<close>

definition run_script :: "listing_order \<Rightarrow> path \<Rightarrow> nat \<Rightarrow> node \<Rightarrow> error option \<times> node" where
  "run_script rank sf now fs =
     (case setup_folders sf fs of
        (Some e, fs') \<Rightarrow> (Some e, fs')
      | (None, fs') \<Rightarrow> process_files rank sf now fs')"

text \<open>
  The names the second loop goes through and the file system it starts on, when the run
  gets there: the folders are reset, the log file is opened and the first loop has ended.
\<close>

definition scratch_listing ::
  "listing_order \<Rightarrow> path \<Rightarrow> nat \<Rightarrow> node \<Rightarrow> (string list \<times> node) option" where
  "scratch_listing rank sf now fs =
     (case setup_folders sf fs of
        (Some e, fsa) \<Rightarrow> None
      | (None, fsa) \<Rightarrow>
         (case write_file (log_file sf) (Data []) now fsa of
            Inl e \<Rightarrow> None
          | Inr fs0 \<Rightarrow>
             (case os_listdir rank fs0 sf of
                Inl e \<Rightarrow> None
              | Inr names \<Rightarrow>
                 (case extract_zip_list sf now names fs0 of
                    (Some e, fs1) \<Rightarrow> None
                  | (None, fs1) \<Rightarrow>
                     (case os_listdir rank fs1 (TEMP_FOLDER sf) of
                        Inl e \<Rightarrow> None
                      | Inr kmz_names \<Rightarrow> Some (kmz_names, fs1))))))"


subsection \<open>Time stamps\<close>

text \<open>
  \<open>erase_times\<close> sets every modification time of a file system to 0: the times of the files
  and the times of the entries of the archives, at every depth. Two file systems are equal up
  to their time stamps when they are equal after that.
\<close>

primrec erase_content :: "content \<Rightarrow> content" where
  "erase_content (Data s) = Data s"
| "erase_content (Zip es) = Zip (map (map_prod id (map_prod (\<lambda>t. 0) erase_content)) es)"

definition erase_entry :: "entry \<Rightarrow> entry" where
  "erase_entry = map_prod id (map_prod (\<lambda>t. 0) erase_content)"



subsection \<open>Observations on a file system\<close>

text \<open>The text of a file that is not an archive, and the entries of an archive.\<close>

definition read_text :: "node \<Rightarrow> path \<Rightarrow> string option" where
  "read_text fs p = (case lookup fs p of Some (File (Data s) t) \<Rightarrow> Some s | _ \<Rightarrow> None)"



subsection \<open>Example inputs\<close>

text \<open>
  The working directory is \<^verbatim>\<open>/maps\<close>. The archive of the first scenario of the specification
  holds a document named \<^verbatim>\<open>Topo A\<close> and its image.
\<close>

definition ex_sf :: path where
  "ex_sf = [''maps'']"

definition ex_doc :: string where
  \<open>ex_doc = ''<kml xmlns="http://www.opengis.net/kml/2.2"><Document><name>Topo A</name><GroundOverlay><Icon><href>overlay.png</href></Icon><LatLonBox><north>45.0</north><south>44.0</south><east>-120.0</east><west>-121.0</west></LatLonBox></GroundOverlay></Document></kml>''\<close>

definition ex_coords :: coordinates where
  "ex_coords = (Some ''45.0'', Some ''44.0'', Some ''-120.0'', Some ''-121.0'')"

definition ex_kmz :: content where
  "ex_kmz = Zip [(''doc.kml'', 3, Data ex_doc), (''overlay.png'', 3, Data ''PNG'')]"

text \<open>\<^verbatim>\<open>sample.kmz\<close> placed in the working directory itself.\<close>

definition ex_direct :: node where
  "ex_direct = Dir [(''maps'', Dir [(''sample.kmz'', File ex_kmz 7)])]"


text \<open>An archive whose document has an overlay and no name element.\<close>

definition ex_doc_noname :: string where
  \<open>ex_doc_noname = ''<kml xmlns="http://www.opengis.net/kml/2.2"><GroundOverlay><Icon><href>overlay.png</href></Icon></GroundOverlay></kml>''\<close>

definition ex_noname :: node where
  "ex_noname = Dir [(''maps'', Dir [(''bundle.zip'',
     File (Zip [(''a.kmz'', 5, Zip [(''doc.kml'', 3, Data ex_doc_noname), (''overlay.png'', 3, Data ''PNG'')])]) 7)])]"

text \<open>An archive whose document is not well-formed: its root element is never closed.\<close>

definition ex_broken :: node where
  "ex_broken = Dir [(''maps'', Dir [(''bundle.zip'',
     File (Zip [(''broken.kmz'', 5, Zip [(''doc.kml'', 3, Data ''<kml>''), (''overlay.png'', 3, Data ''PNG'')])]) 7)])]"

text \<open>Display names as they come out of \<^verbatim>\<open>A &amp; B\<close> and of escaped markup in a source document.\<close>

definition ex_name_amp :: string where
  "ex_name_amp = ''A & B''"

definition ex_name_markup :: string where
  "ex_name_markup = ''A</name><Region></Region><name>B''"



text \<open>The archive of the first scenario without its image.\<close>

definition ex_no_image :: node where
  "ex_no_image = Dir [(''maps'', Dir [(''bundle.zip'',
     File (Zip [(''sample.kmz'', 5, Zip [(''doc.kml'', 3, Data ex_doc)])]) 7)])]"






text \<open>The file system after the run on the archive without its image.\<close>

definition ex_no_image_after :: node where
  "ex_no_image_after = Dir [(''maps'', Dir [
     (''bundle.zip'', File (Zip [(''sample.kmz'', 5, Zip [(''doc.kml'', 3, Data ex_doc)])]) 7),
     (''processed_kmz'', Dir [(''processed_kmz_log.txt'', File (Data log_header) 100)])])]"






subsection \<open>Runs that do not depend on the listing order\<close>

text \<open>The listing order that keeps the names in the order in which they are stored.\<close>

definition stored_order :: listing_order where
  "stored_order = (\<lambda>n. 0)"

text \<open>
  A run does not depend on the listing order when the working directory holds at most one
  name ending in \<^verbatim>\<open>.zip\<close> and the scratch folder, after the first loop, at most one name ending
  in \<^verbatim>\<open>.kmz\<close>.
\<close>

definition few_named :: "string \<Rightarrow> node \<Rightarrow> path \<Rightarrow> bool" where
  "few_named suf fs p =
     (case lookup fs p of
        Some (Dir es) \<Rightarrow>
          list_all ascii_name (map fst es)
          \<and> length (filter (\<lambda>n. endswith (lower n) suf) (map fst es)) \<le> 1
      | _ \<Rightarrow> True)"

definition order_free :: "path \<Rightarrow> nat \<Rightarrow> node \<Rightarrow> bool" where
  "order_free sf now fs =
     (case setup_folders sf fs of
        (Some e, fsa) \<Rightarrow> True
      | (None, fsa) \<Rightarrow>
         (case write_file (log_file sf) (Data []) now fsa of
            Inl e \<Rightarrow> True
          | Inr fs0 \<Rightarrow>
             few_named ''.zip'' fs0 sf
             \<and> (case os_listdir stored_order fs0 sf of
                  Inl e \<Rightarrow> True
                | Inr names \<Rightarrow>
                   (case extract_zip_list sf now names fs0 of
                      (Some e, fs1) \<Rightarrow> True
                    | (None, fs1) \<Rightarrow> few_named ''.kmz'' fs1 (TEMP_FOLDER sf)))))"

section \<open>Properties of the file system operations\<close>

text \<open>
  Two paths are unrelated when neither is a prefix of the other. An operation at one path
  leaves what is found at an unrelated path as it was.
\<close>


lemma map_of_update_other: "k \<noteq> k' \<Longrightarrow> map_of (AList.update k v al) k' = map_of al k'"
  by (simp add: update_conv')

lemma map_of_update_same: "map_of (AList.update k v al) k = Some v"
  by (simp add: update_conv')

lemma map_of_delete_other: "k \<noteq> k' \<Longrightarrow> map_of (AList.delete k al) k' = map_of al k'"
  by (simp add: delete_conv')

lemma map_of_delete_same: "map_of (AList.delete k al) k = None"
  by (simp add: delete_conv')

lemma lookup_put_incomp:
  "\<not> prefix p q \<Longrightarrow> \<not> prefix q p \<Longrightarrow> lookup (put p n fs) q = lookup fs q"
proof (induction p arbitrary: q fs)
  case Nil
  then show ?case by simp
next
  case (Cons x xs)
  then obtain y ys where q: "q = y # ys" by (cases q) auto
  show ?case
  proof (cases fs)
    case (File c t)
    then show ?thesis by simp
  next
    case (Dir es)
    show ?thesis
    proof (cases "x = y")
      case True
      with Cons.prems q have nx: "\<not> prefix xs ys" "\<not> prefix ys xs" by auto
      then have "xs \<noteq> []" by auto
      with True Dir q nx Cons.IH show ?thesis
        by (auto simp: map_of_update_same split: option.splits)
    next
      case False
      with Dir q show ?thesis
        by (auto simp: map_of_update_other split: option.splits)
    qed
  qed
qed

lemma is_dir_Cons:
  "is_dir (Dir es) (x # xs) \<longleftrightarrow> (\<exists>m. map_of es x = Some m \<and> is_dir m xs)"
  by (auto simp: is_dir_def split: option.splits)


lemma is_dir_File: "is_dir (File c t) p \<longleftrightarrow> False"
  by (cases p) (auto simp: is_dir_def)

lemma lookup_put_same:
  "p \<noteq> [] \<Longrightarrow> is_dir fs (butlast p) \<Longrightarrow> lookup (put p n fs) (p @ r) = lookup n r"
proof (induction p arbitrary: fs)
  case Nil
  then show ?case by simp
next
  case (Cons x xs)
  show ?case
  proof (cases fs)
    case (File c t)
    with Cons.prems show ?thesis by (simp add: is_dir_File)
  next
    case (Dir es)
    show ?thesis
    proof (cases "xs = []")
      case True
      with Dir show ?thesis by (auto simp: map_of_update_same split: option.splits)
    next
      case False
      with Cons.prems Dir obtain m where m: "map_of es x = Some m" "is_dir m (butlast xs)"
        by (auto simp: is_dir_Cons)
      with False Dir Cons.IH[of m] show ?thesis by (simp add: map_of_update_same)
    qed
  qed
qed

lemma lookup_remove_incomp:
  "\<not> prefix p q \<Longrightarrow> \<not> prefix q p \<Longrightarrow> lookup (remove p fs) q = lookup fs q"
proof (induction p arbitrary: q fs)
  case Nil
  then show ?case by simp
next
  case (Cons x xs)
  then obtain y ys where q: "q = y # ys" by (cases q) auto
  show ?case
  proof (cases fs)
    case (File c t)
    then show ?thesis by simp
  next
    case (Dir es)
    show ?thesis
    proof (cases "x = y")
      case True
      with Cons.prems q have nx: "\<not> prefix xs ys" "\<not> prefix ys xs" by auto
      then have "xs \<noteq> []" by auto
      with True Dir q nx Cons.IH show ?thesis
        by (auto simp: map_of_update_same split: option.splits)
    next
      case False
      with Dir q show ?thesis
        by (auto simp: map_of_update_other map_of_delete_other split: option.splits)
    qed
  qed
qed

lemma lookup_remove_under:
  "p \<noteq> [] \<Longrightarrow> lookup (remove p fs) (p @ r) = None"
proof (induction p arbitrary: fs)
  case Nil
  then show ?case by simp
next
  case (Cons x xs)
  show ?case
  proof (cases fs)
    case (File c t)
    then show ?thesis by simp
  next
    case (Dir es)
    with Cons show ?thesis
      by (auto simp: map_of_update_same map_of_delete_same split: option.splits)
  qed
qed

lemma os_makedirs_lookup:
  "os_makedirs p fs = Inr fs' \<Longrightarrow> \<not> prefix q p \<Longrightarrow> lookup fs' q = lookup fs q"
proof (induction p fs arbitrary: q fs' rule: os_makedirs.induct)
  case (1 es)
  then show ?case by simp
next
  case (2 c t)
  then show ?case by simp
next
  case (3 x xs c t)
  then show ?case by simp
next
  case (4 x xs es)
  from "4.prems" obtain m' where
    m': "os_makedirs xs (case map_of es x of None \<Rightarrow> Dir [] | Some m \<Rightarrow> m) = Inr m'"
    and fs': "fs' = Dir (AList.update x m' es)"
    by (auto split: sum.splits)
  from "4.prems" obtain y ys where q: "q = y # ys" by (cases q) auto
  show ?case
  proof (cases "x = y")
    case False
    with fs' q show ?thesis by (simp add: map_of_update_other)
  next
    case True
    with "4.prems" q have np: "\<not> prefix ys xs" by simp
    then have "ys \<noteq> []" by auto
    with "4.IH"[OF m' np] True fs' q show ?thesis
      by (cases ys) (auto simp: map_of_update_same split: option.splits)
  qed
qed

lemma os_makedirs_is_dir:
  "os_makedirs p fs = Inr fs' \<Longrightarrow> is_dir fs' p"
proof (induction p fs arbitrary: fs' rule: os_makedirs.induct)
  case (4 x xs es)
  then show ?case by (auto simp: is_dir_Cons map_of_update_same split: sum.splits)
qed (auto simp: is_dir_def)




text \<open>What the steps of the script leave untouched in the output folder.\<close>

lemma lookup_snoc_is_dir: "lookup fs (p @ [x]) = Some n \<Longrightarrow> is_dir fs p"
proof (induction p arbitrary: fs)
  case Nil
  then show ?case by (cases fs) (auto simp: is_dir_def)
next
  case (Cons y ys)
  then show ?case by (cases fs) (auto simp: is_dir_Cons split: option.splits)
qed

lemma exists_snoc_is_dir: "os_path_exists fs (p @ [x]) \<Longrightarrow> is_dir fs p"
  by (auto simp: os_path_exists_def dest: lookup_snoc_is_dir)

lemma write_file_lookup:
  "write_file p c now fs = Inr fs' \<Longrightarrow> \<not> prefix p q \<Longrightarrow> \<not> prefix q p \<Longrightarrow> lookup fs' q = lookup fs q"
  by (auto simp: write_file_def lookup_put_incomp split: if_splits)

lemma os_mkdir_lookup:
  "os_mkdir p fs = Inr fs' \<Longrightarrow> \<not> prefix p q \<Longrightarrow> \<not> prefix q p \<Longrightarrow> lookup fs' q = lookup fs q"
  by (auto simp: os_mkdir_def lookup_put_incomp split: if_splits)

lemma shutil_rmtree_lookup:
  "shutil_rmtree p fs = Inr fs' \<Longrightarrow> \<not> prefix p q \<Longrightarrow> \<not> prefix q p \<Longrightarrow> lookup fs' q = lookup fs q"
  by (auto simp: shutil_rmtree_def lookup_remove_incomp split: if_splits)

lemma unrelated_append:
  assumes "\<not> prefix t q" "\<not> prefix q t"
  shows "\<not> prefix (t @ xs) q" "\<not> prefix q (t @ xs)" "\<not> prefix q (butlast (t @ xs))"
proof -
  show 1: "\<not> prefix (t @ xs) q" using assms(1) by (meson append_prefixD)
  show 2: "\<not> prefix q (t @ xs)" using assms by (auto simp: prefix_append)
  show "\<not> prefix q (butlast (t @ xs))"
    using 2 by (meson prefix_order.trans prefixeq_butlast)
qed

lemma extract_member_lookup:
  assumes "extract_member target now e fs = Inr fs'" "\<not> prefix target q" "\<not> prefix q target"
  shows "lookup fs' q = lookup fs q"
proof -
  let ?tp = "target @ member_parts (fst e)"
  note u = unrelated_append[OF assms(2,3), of "member_parts (fst e)"]
  from assms(1) obtain fs1 where
    a: "(if os_path_exists fs (butlast ?tp) then Inr fs else os_makedirs (butlast ?tp) fs) = Inr fs1"
    by (auto simp: extract_member_def Let_def split: sum.splits)
  have 1: "lookup fs1 q = lookup fs q"
    using a u(3) by (auto split: if_splits dest: os_makedirs_lookup)
  from assms(1) a have "fs' = fs1 \<or> os_mkdir ?tp fs1 = Inr fs' \<or> (\<exists>c. write_file ?tp c now fs1 = Inr fs')"
    by (auto simp: extract_member_def Let_def split: sum.splits if_splits)
  then have "lookup fs' q = lookup fs1 q"
    using u(1,2) by (auto dest: os_mkdir_lookup write_file_lookup)
  with 1 show ?thesis by simp
qed

lemma extract_members_lookup:
  "extract_members target now es fs = (r, fs') \<Longrightarrow> \<not> prefix target q \<Longrightarrow> \<not> prefix q target
   \<Longrightarrow> lookup fs' q = lookup fs q"
proof (induction es arbitrary: fs)
  case Nil
  then show ?case by simp
next
  case (Cons e es)
  show ?case
  proof (cases "extract_member target now e fs")
    case (Inl err)
    with Cons.prems show ?thesis by simp
  next
    case (Inr fs1)
    with Cons.prems have "extract_members target now es fs1 = (r, fs')" by simp
    from Cons.IH[OF this Cons.prems(2,3)] extract_member_lookup[OF Inr Cons.prems(2,3)]
    show ?thesis by simp
  qed
qed

text \<open>The scratch directory of an item is the scratch folder or a directory in it.\<close>

lemma child_cases: "child d n = Inr p \<Longrightarrow> p = d \<or> p = d @ [n]"
  by (auto simp: child_def split: if_splits)

lemma temp_output_unrelated:
  "\<not> prefix (TEMP_FOLDER sf @ xs) (OUTPUT_FOLDER sf @ ys)"
  "\<not> prefix (OUTPUT_FOLDER sf @ ys) (TEMP_FOLDER sf @ xs)"
  by (auto simp: TEMP_FOLDER_def OUTPUT_FOLDER_def)

lemma scratch_output_unrelated:
  assumes "child (TEMP_FOLDER sf) n = Inr folder"
  shows "\<not> prefix (folder @ xs) (OUTPUT_FOLDER sf @ ys)" "\<not> prefix (OUTPUT_FOLDER sf @ ys) (folder @ xs)"
  using child_cases[OF assms] by (auto simp: TEMP_FOLDER_def OUTPUT_FOLDER_def)

lemma unpack_kmz_lookup:
  assumes "unpack_kmz sf now kmz_file fs = Inr (folder, fs2)"
  shows "lookup fs2 (OUTPUT_FOLDER sf @ ys) = lookup fs (OUTPUT_FOLDER sf @ ys)"
    and "child (TEMP_FOLDER sf) (remove_all ''.kmz'' kmz_file) = Inr folder"
proof -
  from assms obtain kmz_path fs1 where
    f: "child (TEMP_FOLDER sf) (remove_all ''.kmz'' kmz_file) = Inr folder"
    and m: "os_makedirs folder fs = Inr fs1"
    and x: "extract_kmz now kmz_path folder fs1 = (None, fs2)"
    by (auto simp: unpack_kmz_def split: sum.splits option.splits prod.splits)
  show "child (TEMP_FOLDER sf) (remove_all ''.kmz'' kmz_file) = Inr folder" by (rule f)
  note u = scratch_output_unrelated[OF f, where xs="[]" and ys=ys, simplified]
  have 1: "lookup fs1 (OUTPUT_FOLDER sf @ ys) = lookup fs (OUTPUT_FOLDER sf @ ys)"
    using os_makedirs_lookup[OF m u(2)] .
  from x obtain es where "extract_members folder now es fs1 = (None, fs2)"
    by (auto simp: extract_kmz_def split: sum.splits)
  from extract_members_lookup[OF this u] 1
  show "lookup fs2 (OUTPUT_FOLDER sf @ ys) = lookup fs (OUTPUT_FOLDER sf @ ys)" by simp
qed



section \<open>Independence of the listing order\<close>

text \<open>
  Names that do not end in the suffix a loop looks for are passed over, so a loop over a
  listing is the loop over the names with the suffix; when there is at most one such name,
  every listing order gives the same run.
\<close>

lemma sort_key_short: "length xs \<le> 1 \<Longrightarrow> sort_key f xs = xs"
  by (cases xs) (auto simp: length_Suc_conv)

lemma filter_listing: "length (filter P xs) \<le> 1 \<Longrightarrow> filter P (sort_key f xs) = filter P xs"
  by (simp add: filter_sort sort_key_short)

lemma list_all_listing: "list_all P (sort_key f xs) = list_all P xs"
  by (simp add: list_all_iff)

lemma sort_key_stored: "sort_key stored_order xs = xs"
  by (induction xs) (auto simp: stored_order_def insort_is_Cons)

lemma extract_zip_list_filter:
  "list_all ascii_name xs \<Longrightarrow>
   extract_zip_list sf now xs fs
     = extract_zip_list sf now (filter (\<lambda>n. endswith (lower n) ''.zip'') xs) fs"
proof (induction xs arbitrary: fs)
  case Nil
  then show ?case by simp
next
  case (Cons x xs)
  then show ?case by (auto split: sum.splits prod.splits option.splits)
qed

lemma process_kmz_list_filter:
  "list_all ascii_name xs \<Longrightarrow>
   process_kmz_list sf now xs st
     = process_kmz_list sf now (filter (\<lambda>n. endswith (lower n) ''.kmz'') xs) st"
proof (induction xs arbitrary: st)
  case Nil
  then show ?case by simp
next
  case (Cons x xs)
  then show ?case by (auto split: sum.splits prod.splits option.splits)
qed

lemma extract_zip_list_any_order:
  assumes "few_named ''.zip'' fs p" "lookup fs p = Some (Dir es)"
  shows "extract_zip_list sf now (sort_key rank (map fst es)) fs0
           = extract_zip_list sf now (map fst es) fs0"
proof -
  from assms have a: "list_all ascii_name (map fst es)"
    and l: "length (filter (\<lambda>n. endswith (lower n) ''.zip'') (map fst es)) \<le> 1"
    by (auto simp: few_named_def)
  from a have a': "list_all ascii_name (sort_key rank (map fst es))"
    by (simp only: list_all_listing)
  show ?thesis
    by (simp only: extract_zip_list_filter[OF a'] extract_zip_list_filter[OF a] filter_listing[OF l])
qed

lemma process_kmz_list_any_order:
  assumes "few_named ''.kmz'' fs p" "lookup fs p = Some (Dir es)"
  shows "process_kmz_list sf now (sort_key rank (map fst es)) st
           = process_kmz_list sf now (map fst es) st"
proof -
  from assms have a: "list_all ascii_name (map fst es)"
    and l: "length (filter (\<lambda>n. endswith (lower n) ''.kmz'') (map fst es)) \<le> 1"
    by (auto simp: few_named_def)
  from a have a': "list_all ascii_name (sort_key rank (map fst es))"
    by (simp only: list_all_listing)
  show ?thesis
    by (simp only: process_kmz_list_filter[OF a'] process_kmz_list_filter[OF a] filter_listing[OF l])
qed

lemma run_order_irrelevant:
  assumes "order_free sf now fs"
  shows "run_script rank sf now fs = run_script stored_order sf now fs"
proof (cases "setup_folders sf fs")
  case (Pair r fsa)
  show ?thesis
  proof (cases r)
    case (Some e)
    with Pair show ?thesis by (simp add: run_script_def)
  next
    case None
    show ?thesis
    proof (cases "write_file (log_file sf) (Data []) now fsa")
      case (Inl e)
      with Pair None show ?thesis by (simp add: run_script_def process_files_def)
    next
      case (Inr fs0)
      from assms Pair None Inr have z: "few_named ''.zip'' fs0 sf"
        by (simp add: order_free_def)
      have body: "process_body rank sf now \<lparr>files = fs0, logged = log_header\<rparr>
                = process_body stored_order sf now \<lparr>files = fs0, logged = log_header\<rparr>"
      proof (cases "lookup fs0 sf")
        case None
        then show ?thesis by (simp add: process_body_def os_listdir_def)
      next
        case (Some n)
        show ?thesis
        proof (cases n)
          case (File c t)
          with Some show ?thesis by (simp add: process_body_def os_listdir_def)
        next
          case (Dir es)
          note l0 = Some[unfolded Dir]
          have e: "extract_zip_list sf now (sort_key rank (map fst es)) fs0
                     = extract_zip_list sf now (map fst es) fs0"
            by (rule extract_zip_list_any_order[OF z l0])
          show ?thesis
          proof (cases "extract_zip_list sf now (map fst es) fs0")
            case (Pair r1 fs1)
            show ?thesis
            proof (cases r1)
              case (Some e1)
              with Pair e l0 show ?thesis
                by (simp add: process_body_def os_listdir_def sort_key_stored)
            next
              case None
              from assms \<open>setup_folders sf fs = (r, fsa)\<close> \<open>r = None\<close> Inr l0 Pair None
              have k: "few_named ''.kmz'' fs1 (TEMP_FOLDER sf)"
                by (simp add: order_free_def os_listdir_def sort_key_stored)
              show ?thesis
              proof (cases "lookup fs1 (TEMP_FOLDER sf)")
                case None
                with Pair \<open>r1 = None\<close> e l0 show ?thesis
                  by (simp add: process_body_def os_listdir_def sort_key_stored)
              next
                case (Some n2)
                show ?thesis
                proof (cases n2)
                  case (File c t)
                  with Some Pair \<open>r1 = None\<close> e l0 show ?thesis
                    by (simp add: process_body_def os_listdir_def sort_key_stored)
                next
                  case (Dir es2)
                  note l1 = Some[unfolded Dir]
                  from process_kmz_list_any_order[OF k l1] Pair \<open>r1 = None\<close> e l0 l1
                  show ?thesis
                    by (simp add: process_body_def os_listdir_def sort_key_stored)
                qed
              qed
            qed
          qed
        qed
      qed
      with Pair None Inr show ?thesis by (simp add: run_script_def process_files_def)
    qed
  qed
qed

section \<open>The run as a whole\<close>





section \<open>The output folder during a run\<close>

lemma lookup_put_child:
  "lookup fs d = Some (Dir es) \<Longrightarrow> lookup (put (d @ [n]) v fs) d = Some (Dir (AList.update n v es))"
proof (induction d arbitrary: fs)
  case Nil
  then show ?case by (simp split: option.splits)
next
  case (Cons x xs)
  then obtain es0 where fs: "fs = Dir es0" by (cases fs) auto
  with Cons.prems obtain m where m: "map_of es0 x = Some m" "lookup m xs = Some (Dir es)"
    by (auto split: option.splits)
  show ?case using Cons.IH[OF m(2)] m(1) by (simp add: fs map_of_update_same)
qed

lemma process_kmz_None_cases:
  assumes "process_kmz sf now kmz_file st = (None, st')"
  shows "(\<exists>folder fs2. unpack_kmz sf now kmz_file (files st) = Inr (folder, fs2)
            \<and> st' = st\<lparr>files := remove folder fs2\<rparr>)
       \<or> (\<exists>folder fs2 d h coords fs3 out fs4.
            unpack_kmz sf now kmz_file (files st) = Inr (folder, fs2)
            \<and> parse_kml fs2 (folder @ [''doc.kml'']) = Inr (Some d, Some h, Some coords)
            \<and> d \<noteq> [] \<and> h \<noteq> []
            \<and> create_clean_kml (folder @ [''cleaned.kml'']) d h coords now fs2 = Inr fs3
            \<and> child (OUTPUT_FOLDER sf) kmz_file = Inr out
            \<and> repackage_kmz folder out h now fs3 = (None, fs4)
            \<and> st' = st\<lparr>logged := logged st @ kmz_file @ '' -> '' @ path_str out @ ''\<newline>'',
                       files := remove folder fs4\<rparr>)"
proof -
  from assms obtain folder fs2 where u: "unpack_kmz sf now kmz_file (files st) = Inr (folder, fs2)"
    and c: "convert_kmz sf now kmz_file folder fs2 st = (None, st')"
    by (auto simp: process_kmz_def split: sum.splits prod.splits)
  have ds: "\<And>fs s s'. drop_scratch folder fs s = (None, s') \<Longrightarrow> s' = s\<lparr>files := remove folder fs\<rparr>"
    by (auto simp: drop_scratch_def shutil_rmtree_def split: sum.splits if_splits)
  show ?thesis
  proof (cases "os_path_exists fs2 (folder @ [''doc.kml''])")
    case False
    with c have "drop_scratch folder fs2 st = (None, st')" by (simp add: convert_kmz_def)
    from ds[OF this] u show ?thesis by blast
  next
    case True
    with c obtain dn ih co where p: "parse_kml fs2 (folder @ [''doc.kml'']) = Inr (dn, ih, co)"
      by (auto simp: convert_kmz_def split: sum.splits)
    show ?thesis
    proof (cases "falsy dn \<or> falsy ih")
      case True
      with c p \<open>os_path_exists fs2 (folder @ [''doc.kml''])\<close>
      have "drop_scratch folder fs2 st = (None, st')" by (simp add: convert_kmz_def)
      from ds[OF this] u show ?thesis by blast
    next
      case False
      then obtain d h where dh: "dn = Some d" "ih = Some h" "d \<noteq> []" "h \<noteq> []"
        by (cases dn; cases ih) (auto simp: falsy_def)
      from c p dh \<open>os_path_exists fs2 (folder @ [''doc.kml''])\<close>
      obtain coords fs3 out fs4 where
        co: "co = Some coords"
        and f: "create_clean_kml (folder @ [''cleaned.kml'']) d h coords now fs2 = Inr fs3"
        "child (OUTPUT_FOLDER sf) kmz_file = Inr out"
        "repackage_kmz folder out h now fs3 = (None, fs4)"
        and dr: "drop_scratch folder fs4
           (st\<lparr>logged := logged st @ kmz_file @ '' -> '' @ path_str out @ ''\<newline>''\<rparr>) = (None, st')"
        by (auto simp: convert_kmz_def falsy_def split: sum.splits option.splits prod.splits)
      have p': "parse_kml fs2 (folder @ [''doc.kml'']) = Inr (Some d, Some h, Some coords)"
        using p dh co by simp
      have "st' = st\<lparr>logged := logged st @ kmz_file @ '' -> '' @ path_str out @ ''\<newline>'',
                       files := remove folder fs4\<rparr>"
        using ds[OF dr] by simp
      with u p' dh(3,4) f show ?thesis by blast
    qed
  qed
qed

lemma repackage_kmz_None:
  assumes "repackage_kmz tf out h now fs = (None, fs4)"
  shows "\<exists>fs1 e1 e2. write_file out (Data []) now fs = Inr fs1
           \<and> zip_entry fs1 (Some (tf @ [''cleaned.kml''])) ''doc.kml'' = Inr e1
           \<and> resolve fs1 tf h \<noteq> Some out
           \<and> zip_entry fs1 (resolve fs1 tf h) h = Inr e2
           \<and> fs4 = put out (File (Zip [e1, e2]) now) fs1"
  using assms by (auto simp: repackage_kmz_def split: sum.splits if_splits)

lemma write_file_put: "write_file p c now fs = Inr fs' \<Longrightarrow>
   fs' = put p (File c now) fs \<and> p \<noteq> [] \<and> is_dir fs (butlast p) \<and> \<not> is_dir fs p"
  by (auto simp: write_file_def split: if_splits)

lemma kmz_name_not_log:
  "endswith (lower kmz_file) ''.kmz'' \<Longrightarrow> kmz_file \<noteq> ''processed_kmz_log.txt'' \<and> kmz_file \<noteq> []"
  by (auto simp: endswith_def lower_def lower_char_def suffix_def)

lemma child_plain: "child d n = Inr p \<Longrightarrow> n \<noteq> [] \<Longrightarrow> p = d @ [n]"
  by (auto simp: child_def split: if_splits)

lemma process_kmz_keeps_log_first:
  assumes "process_kmz sf now kmz_file st = (None, st')" "endswith (lower kmz_file) ''.kmz''"
    and "lookup (files st) (OUTPUT_FOLDER sf) = Some (Dir ((''processed_kmz_log.txt'', v) # rest))"
    and "logged st = log_header @ extra" "(extra = []) = (rest = [])"
  shows "\<exists>rest' extra'.
           lookup (files st') (OUTPUT_FOLDER sf) = Some (Dir ((''processed_kmz_log.txt'', v) # rest'))
           \<and> logged st' = log_header @ extra' \<and> (extra' = []) = (rest' = [])"
  using process_kmz_None_cases[OF assms(1)]
proof (elim disjE exE conjE)
  fix folder fs2
  assume u: "unpack_kmz sf now kmz_file (files st) = Inr (folder, fs2)"
    and s: "st' = st\<lparr>files := remove folder fs2\<rparr>"
  note c = unpack_kmz_lookup(2)[OF u]
  have "lookup (remove folder fs2) (OUTPUT_FOLDER sf) = lookup fs2 (OUTPUT_FOLDER sf)"
    using scratch_output_unrelated[OF c, where xs="[]" and ys="[]"]
    by (simp add: lookup_remove_incomp)
  also have "\<dots> = lookup (files st) (OUTPUT_FOLDER sf)"
    using unpack_kmz_lookup(1)[OF u, of "[]"] by simp
  finally show ?thesis using assms(3-5) s by auto
next
  fix folder fs2 d h coords fs3 out fs4
  assume u: "unpack_kmz sf now kmz_file (files st) = Inr (folder, fs2)"
    and cr: "create_clean_kml (folder @ [''cleaned.kml'']) d h coords now fs2 = Inr fs3"
    and ch: "child (OUTPUT_FOLDER sf) kmz_file = Inr out"
    and rp: "repackage_kmz folder out h now fs3 = (None, fs4)"
    and s: "st' = st\<lparr>logged := logged st @ kmz_file @ '' -> '' @ path_str out @ ''\<newline>'',
                    files := remove folder fs4\<rparr>"
  note c = unpack_kmz_lookup(2)[OF u]
  note k = kmz_name_not_log[OF assms(2)]
  from k have k': "''processed_kmz_log.txt'' \<noteq> kmz_file" by auto
  have out: "out = OUTPUT_FOLDER sf @ [kmz_file]" using child_plain[OF ch] k by simp
  have l2: "lookup fs2 (OUTPUT_FOLDER sf) = lookup (files st) (OUTPUT_FOLDER sf)"
    using unpack_kmz_lookup(1)[OF u, of "[]"] by simp
  have l3: "lookup fs3 (OUTPUT_FOLDER sf) = lookup fs2 (OUTPUT_FOLDER sf)"
    using cr scratch_output_unrelated[OF c, where xs="[''cleaned.kml'']" and ys="[]"]
    by (simp add: create_clean_kml_def write_file_lookup)
  from repackage_kmz_None[OF rp] obtain fs1 e1 e2 where
    w: "write_file out (Data []) now fs3 = Inr fs1"
    and f4: "fs4 = put out (File (Zip [e1, e2]) now) fs1"
    by blast
  let ?es = "(''processed_kmz_log.txt'', v) # rest"
  have l1: "lookup fs1 (OUTPUT_FOLDER sf)
              = Some (Dir (AList.update kmz_file (File (Data []) now) ?es))"
    using write_file_put[OF w] lookup_put_child[of fs3 "OUTPUT_FOLDER sf" ?es kmz_file]
      l3 l2 assms(3) by (simp add: out)
  have l4: "lookup fs4 (OUTPUT_FOLDER sf)
              = Some (Dir (AList.update kmz_file (File (Zip [e1, e2]) now)
                   (AList.update kmz_file (File (Data []) now) ?es)))"
    unfolding f4 out by (rule lookup_put_child[OF l1])
  have "lookup (remove folder fs4) (OUTPUT_FOLDER sf) = lookup fs4 (OUTPUT_FOLDER sf)"
    using scratch_output_unrelated[OF c, where xs="[]" and ys="[]"]
    by (simp add: lookup_remove_incomp)
  with l4 have "lookup (files st') (OUTPUT_FOLDER sf)
     = Some (Dir ((''processed_kmz_log.txt'', v) #
          AList.update kmz_file (File (Zip [e1, e2]) now)
            (AList.update kmz_file (File (Data []) now) rest)))"
    using k' by (simp add: s)
  moreover have "AList.update kmz_file (File (Zip [e1, e2]) now)
            (AList.update kmz_file (File (Data []) now) rest) \<noteq> []"
    by (cases rest) auto
  moreover have "logged st' = log_header @ (extra @ kmz_file @ '' -> '' @ path_str out @ ''\<newline>'')"
    using assms(4) by (simp add: s)
  ultimately show ?thesis by blast
qed

lemma process_kmz_list_keeps_log_first:
  assumes "process_kmz_list sf now names st = (None, st')"
    and "lookup (files st) (OUTPUT_FOLDER sf) = Some (Dir ((''processed_kmz_log.txt'', v) # rest))"
    and "logged st = log_header @ extra" "(extra = []) = (rest = [])"
  shows "\<exists>rest' extra'.
           lookup (files st') (OUTPUT_FOLDER sf) = Some (Dir ((''processed_kmz_log.txt'', v) # rest'))
           \<and> logged st' = log_header @ extra' \<and> (extra' = []) = (rest' = [])"
  using assms
proof (induction names arbitrary: st rest extra)
  case Nil
  then show ?case by auto
next
  case (Cons n names)
  show ?case
  proof (cases "endswith (lower n) ''.kmz''")
    case False
    with Cons.prems(1) have "process_kmz_list sf now names st = (None, st')"
      by (auto split: if_splits)
    from Cons.IH[OF this Cons.prems(2-4)] show ?thesis .
  next
    case True
    with Cons.prems(1) obtain st1 where
      p: "process_kmz sf now n st = (None, st1)" and r: "process_kmz_list sf now names st1 = (None, st')"
      by (auto split: if_splits prod.splits option.splits)
    from process_kmz_keeps_log_first[OF p True Cons.prems(2-4)] obtain rest1 extra1 where
      "lookup (files st1) (OUTPUT_FOLDER sf) = Some (Dir ((''processed_kmz_log.txt'', v) # rest1))"
      "logged st1 = log_header @ extra1" "(extra1 = []) = (rest1 = [])"
      by blast
    from Cons.IH[OF r this] show ?thesis .
  qed
qed

lemma lookup_append:
  "lookup fs (p @ q) = (case lookup fs p of None \<Rightarrow> None | Some m \<Rightarrow> lookup m q)"
proof (induction p arbitrary: fs)
  case Nil
  then show ?case by simp
next
  case (Cons x xs)
  then show ?case by (cases fs) (auto split: option.splits)
qed

lemma os_makedirs_empty: "os_makedirs p (Dir []) = Inr fs' \<Longrightarrow> lookup fs' p = Some (Dir [])"
proof (induction p arbitrary: fs')
  case Nil
  then show ?case by simp
next
  case (Cons x xs)
  then show ?case by (auto split: sum.splits)
qed

lemma os_makedirs_fresh:
  "lookup fs p = None \<Longrightarrow> os_makedirs p fs = Inr fs' \<Longrightarrow> lookup fs' p = Some (Dir [])"
proof (induction p arbitrary: fs fs')
  case Nil
  then show ?case by simp
next
  case (Cons x xs)
  show ?case
  proof (cases fs)
    case (File c t)
    with Cons.prems show ?thesis by simp
  next
    case (Dir es)
    show ?thesis
    proof (cases "map_of es x")
      case None
      with Cons.prems(2) Dir obtain m' where m: "os_makedirs xs (Dir []) = Inr m'"
        and f: "fs' = Dir (AList.update x m' es)"
        by (auto split: sum.splits)
      from os_makedirs_empty[OF m] show ?thesis by (simp add: f map_of_update_same)
    next
      case (Some m)
      with Cons.prems Dir obtain m' where m: "os_makedirs xs m = Inr m'"
        and f: "fs' = Dir (AList.update x m' es)" and l: "lookup m xs = None"
        by (auto split: sum.splits)
      from Cons.IH[OF l m] show ?thesis by (simp add: f map_of_update_same)
    qed
  qed
qed

lemma reset_folder_empty:
  assumes "reset_folder p fs = Inr fs'"
  shows "lookup fs' p = Some (Dir [])"
proof (cases "os_path_exists fs p")
  case True
  with assms have d: "p \<noteq> []" "is_dir fs p" and m: "os_makedirs p (remove p fs) = Inr fs'"
    by (auto simp: reset_folder_def shutil_rmtree_def split: if_splits sum.splits)
  have "lookup (remove p fs) p = None" using lookup_remove_under[OF d(1), of fs "[]"] by simp
  from os_makedirs_fresh[OF this m] show ?thesis .
next
  case False
  with assms have "os_makedirs p fs = Inr fs'" "lookup fs p = None"
    by (auto simp: reset_folder_def os_path_exists_def)
  from os_makedirs_fresh[OF this(2,1)] show ?thesis .
qed

lemma reset_folder_lookup:
  assumes "reset_folder p fs = Inr fs'" "\<not> prefix p q" "\<not> prefix q p"
  shows "lookup fs' q = lookup fs q"
proof -
  from assms(1) obtain fs1 where
    a: "(if os_path_exists fs p then shutil_rmtree p fs else Inr fs) = Inr fs1"
    and b: "os_makedirs p fs1 = Inr fs'"
    by (auto simp: reset_folder_def split: sum.splits)
  have "lookup fs1 q = lookup fs q"
    using a assms(2,3) by (auto split: if_splits dest: shutil_rmtree_lookup)
  moreover have "lookup fs' q = lookup fs1 q"
    using b assms(3) by (rule os_makedirs_lookup)
  ultimately show ?thesis by simp
qed

lemma setup_folders_output:
  assumes "setup_folders sf fs = (None, fsa)"
  shows "lookup fsa (OUTPUT_FOLDER sf) = Some (Dir [])"
proof -
  from assms obtain fs1 where a: "reset_folder (OUTPUT_FOLDER sf) fs = Inr fs1"
    and b: "reset_folder (TEMP_FOLDER sf) fs1 = Inr fsa"
    by (auto simp: setup_folders_def split: sum.splits)
  have "lookup fsa (OUTPUT_FOLDER sf) = lookup fs1 (OUTPUT_FOLDER sf)"
    using reset_folder_lookup[OF b, of "OUTPUT_FOLDER sf"]
      temp_output_unrelated[where sf=sf and xs="[]" and ys="[]"] by simp
  with reset_folder_empty[OF a] show ?thesis by simp
qed

lemma extract_zip_list_lookup:
  "extract_zip_list sf now names fs = (r, fs') \<Longrightarrow>
   lookup fs' (OUTPUT_FOLDER sf @ ys) = lookup fs (OUTPUT_FOLDER sf @ ys)"
proof (induction names arbitrary: fs)
  case Nil
  then show ?case by simp
next
  case (Cons n names)
  have step: "\<And>p e f. extract_zip sf now p fs = (e, f) \<Longrightarrow>
      lookup f (OUTPUT_FOLDER sf @ ys) = lookup fs (OUTPUT_FOLDER sf @ ys)"
    using temp_output_unrelated[where sf=sf and xs="[]" and ys=ys]
    by (auto simp: extract_zip_def split: sum.splits dest!: extract_members_lookup)
  from Cons.prems show ?case
    by (auto split: if_splits sum.splits prod.splits option.splits dest!: step Cons.IH)
qed

lemma scratch_listing_output:
  assumes "scratch_listing rank sf now fs = Some (names, fs1)"
  shows "lookup fs1 (OUTPUT_FOLDER sf)
           = Some (Dir [(''processed_kmz_log.txt'', File (Data []) now)])"
proof -
  from assms obtain fsa fs0 zs where
    s: "setup_folders sf fs = (None, fsa)"
    and w: "write_file (log_file sf) (Data []) now fsa = Inr fs0"
    and x: "extract_zip_list sf now zs fs0 = (None, fs1)"
    by (auto simp: scratch_listing_def split: prod.splits option.splits sum.splits)
  have "lookup fs0 (OUTPUT_FOLDER sf)
          = Some (Dir (AList.update ''processed_kmz_log.txt'' (File (Data []) now) []))"
    using write_file_put[OF w] lookup_put_child[OF setup_folders_output[OF s]]
    by (simp add: log_file_def)
  moreover have "lookup fs1 (OUTPUT_FOLDER sf) = lookup fs0 (OUTPUT_FOLDER sf)"
    using extract_zip_list_lookup[OF x, of "[]"] by simp
  ultimately show ?thesis by simp
qed

lemma run_script_None:
  assumes "run_script rank sf now fs = (None, fs')"
  shows "\<exists>names fs1 st. scratch_listing rank sf now fs = Some (names, fs1)
           \<and> process_kmz_list sf now names \<lparr>files = fs1, logged = log_header\<rparr> = (None, st)
           \<and> fs' = cleanup sf (put (log_file sf) (File (Data (logged st)) now) (files st))"
  using assms
  by (auto simp: run_script_def process_files_def process_body_def scratch_listing_def Let_def
      split: prod.splits option.splits sum.splits)

section \<open>The entries of an output archive\<close>








section \<open>Runs at different times\<close>

















lemma erase_content_Zip: "erase_content (Zip es) = Zip (map erase_entry es)"
  by (simp add: erase_entry_def)




























section \<open>The claims\<close>

subsection \<open>Discovery of archives in the working directory\<close>

text \<open>
  C1 claims that a \<^verbatim>\<open>.kmz\<close> file in the working directory is discovered directly and
  processed. The script lists the working directory for \<^verbatim>\<open>.zip\<close> files only and then lists
  the scratch directory: with \<^verbatim>\<open>sample.kmz\<close> alone in the working directory the run completes,
  the output directory holds the log file alone, and the log holds its header alone.
\<close>

theorem direct_kmz_is_not_processed:
  "run_script rank ex_sf 100 ex_direct =
     (None, Dir [(''maps'', Dir [(''sample.kmz'', File ex_kmz 7),
        (''processed_kmz'', Dir [(''processed_kmz_log.txt'', File (Data log_header) 100)])])])"
proof -
  have "order_free ex_sf 100 ex_direct"
    by code_simp
  then have "run_script rank ex_sf 100 ex_direct = run_script stored_order ex_sf 100 ex_direct"
    by (rule run_order_irrelevant)
  also have "\<dots> =
     (None, Dir [(''maps'', Dir [(''sample.kmz'', File ex_kmz 7),
        (''processed_kmz'', Dir [(''processed_kmz_log.txt'', File (Data log_header) 100)])])])"
    by code_simp
  finally show ?thesis .
qed


subsection \<open>Documents with missing elements\<close>

text \<open>
  Without a name element \<^verbatim>\<open>root.find(...)\<close> is \<^verbatim>\<open>None\<close> and \<^verbatim>\<open>.text\<close> raises.
\<close>

lemma parse_kml_without_name:
  assumes "ET_parse_file fs kml_path = Inr root"
    and "find_descendant (kml ''name'') root = None"
  shows "parse_kml fs kml_path = Inl AttributeError"
  using assms by (simp add: parse_kml_def text_of_def)

text \<open>
  C3 claims that a well-formed document without a name element is skipped. The document of
  \<^verbatim>\<open>a.kmz\<close> is well-formed and has an overlay with an image reference, its image is there,
  and it has no name element: the run ends with \<^verbatim>\<open>AttributeError\<close>, whatever the listing order,
  and the output folder holds the log file alone, with its header alone.
\<close>

theorem missing_name_raises:
  "ET_parse ex_doc_noname
     = Inr (Element (kml ''kml'') None [Element (kml ''GroundOverlay'') None
         [Element (kml ''Icon'') None [Element (kml ''href'') (Some ''overlay.png'') []]]])
   \<and> fst (run_script rank ex_sf 100 ex_noname) = Some AttributeError
   \<and> lookup (snd (run_script rank ex_sf 100 ex_noname)) (OUTPUT_FOLDER ex_sf)
       = Some (Dir [(''processed_kmz_log.txt'', File (Data log_header) 100)])"
proof -
  have "order_free ex_sf 100 ex_noname"
    by code_simp
  then have r: "run_script rank ex_sf 100 ex_noname = run_script stored_order ex_sf 100 ex_noname"
    by (rule run_order_irrelevant)
  have "ET_parse ex_doc_noname
     = Inr (Element (kml ''kml'') None [Element (kml ''GroundOverlay'') None
         [Element (kml ''Icon'') None [Element (kml ''href'') (Some ''overlay.png'') []]]])"
    by code_simp
  moreover have "fst (run_script stored_order ex_sf 100 ex_noname) = Some AttributeError"
    by code_simp
  moreover have "lookup (snd (run_script stored_order ex_sf 100 ex_noname)) (OUTPUT_FOLDER ex_sf)
       = Some (Dir [(''processed_kmz_log.txt'', File (Data log_header) 100)])"
    by code_simp
  ultimately show ?thesis by (simp only: r simp_thms)
qed

subsection \<open>The synthesized document\<close>

text \<open>
  C4 claims that the synthesized document contains no region element. The template
  inserts the display name as it is; a display name that holds markup brings its elements
  into the document.
\<close>

theorem markup_in_name_adds_region:
  "(case ET_parse (kml_content ex_name_markup ''overlay.png'' ex_coords) of
      Inl e \<Rightarrow> False
    | Inr root \<Rightarrow> descendants (kml ''Region'') root = [Element (kml ''Region'') None []])"
  by code_simp

text \<open>
  C5 claims that the fields read back from the synthesized document are the fields it was
  made from. With an ampersand in the display name the synthesized document is not
  well-formed, and nothing can be read back.
\<close>

theorem ampersand_in_name_breaks_document:
  "ET_parse (kml_content ex_name_amp ''overlay.png'' ex_coords) = Inl ParseError"
  by code_simp

text \<open>
  C7: the text that \<^verbatim>\<open>create_clean_kml\<close> writes depends on the display name, the image
  reference and the coordinates only: two calls with the same three values, at any two
  paths and times and on any two file systems, write the same text.
\<close>

theorem create_clean_kml_deterministic:
  assumes "create_clean_kml p1 d h c t1 fs1 = Inr fs1'"
    and "create_clean_kml p2 d h c t2 fs2 = Inr fs2'"
  shows "read_text fs1' p1 = Some (kml_content d h c) \<and> read_text fs2' p2 = read_text fs1' p1"
proof -
  have w: "read_text fs' p = Some (kml_content d h c)"
    if "create_clean_kml p d h c t fs = Inr fs'" for p t fs fs'
  proof -
    from that have "p \<noteq> []" "is_dir fs (butlast p)" and fs': "fs' = put p (File (Data (kml_content d h c)) t) fs"
      by (auto simp: create_clean_kml_def write_file_def split: if_splits)
    then have "lookup fs' (p @ []) = lookup (File (Data (kml_content d h c)) t) []"
      using lookup_put_same by blast
    then show ?thesis by (simp add: read_text_def)
  qed
  from w[OF assms(1)] w[OF assms(2)] show ?thesis by simp
qed

theorem create_clean_kml_deterministic_witness:
  "create_clean_kml [''a'', ''cleaned.kml''] ''Topo A'' ''overlay.png'' ex_coords 1 (Dir [(''a'', Dir [])])
     = Inr (Dir [(''a'', Dir [(''cleaned.kml'', File (Data (kml_content ''Topo A'' ''overlay.png'' ex_coords)) 1)])])
   \<and> create_clean_kml [''x.kml''] ''Topo A'' ''overlay.png'' ex_coords 2 (Dir [(''b'', File (Data ''old'') 0)])
     = Inr (Dir [(''b'', File (Data ''old'') 0), (''x.kml'', File (Data (kml_content ''Topo A'' ''overlay.png'' ex_coords)) 2)])
   \<and> read_text (Dir [(''b'', File (Data ''old'') 0), (''x.kml'', File (Data (kml_content ''Topo A'' ''overlay.png'' ex_coords)) 2)]) [''x.kml'']
     = read_text (Dir [(''a'', Dir [(''cleaned.kml'', File (Data (kml_content ''Topo A'' ''overlay.png'' ex_coords)) 1)])]) [''a'', ''cleaned.kml'']"
proof -
  have h1: "create_clean_kml [''a'', ''cleaned.kml''] ''Topo A'' ''overlay.png'' ex_coords 1 (Dir [(''a'', Dir [])])
     = Inr (Dir [(''a'', Dir [(''cleaned.kml'', File (Data (kml_content ''Topo A'' ''overlay.png'' ex_coords)) 1)])])"
    by (simp add: create_clean_kml_def write_file_def is_dir_def)
  have h2: "create_clean_kml [''x.kml''] ''Topo A'' ''overlay.png'' ex_coords 2 (Dir [(''b'', File (Data ''old'') 0)])
     = Inr (Dir [(''b'', File (Data ''old'') 0), (''x.kml'', File (Data (kml_content ''Topo A'' ''overlay.png'' ex_coords)) 2)])"
    by (simp add: create_clean_kml_def write_file_def is_dir_def)
  from create_clean_kml_deterministic[OF h1 h2] h1 h2 show ?thesis by simp
qed

subsection \<open>A document that is not well-formed\<close>


text \<open>The same holds in every listing order.\<close>

lemma broken_document_ends_run_in_any_order:
  "fst (run_script rank ex_sf 100 ex_broken) = Some ParseError"
proof -
  have "order_free ex_sf 100 ex_broken"
    by code_simp
  then have "run_script rank ex_sf 100 ex_broken = run_script stored_order ex_sf 100 ex_broken"
    by (rule run_order_irrelevant)
  moreover have "fst (run_script stored_order ex_sf 100 ex_broken) = Some ParseError"
    by code_simp
  ultimately show ?thesis
    by simp
qed



subsection \<open>A missing image\<close>



subsection \<open>The log file\<close>

text \<open>
  C10: after every run that ends without an exception the log file is the first entry of
  the output folder, and its text is the header followed by the lines of the run. The text is
  the header alone exactly when the output folder holds nothing but the log file, which is
  the case when no archive was converted.
\<close>

theorem log_file_written:
  assumes "run_script rank sf now fs = (None, fs')"
  shows "\<exists>lines rest.
           lookup fs' (OUTPUT_FOLDER sf)
             = Some (Dir ((''processed_kmz_log.txt'', File (Data (log_header @ lines)) now) # rest))
           \<and> read_text fs' (log_file sf) = Some (log_header @ lines)
           \<and> (lines = []) = (rest = [])"
proof -
  from run_script_None[OF assms] obtain names fs1 st where
    l: "scratch_listing rank sf now fs = Some (names, fs1)"
    and p: "process_kmz_list sf now names \<lparr>files = fs1, logged = log_header\<rparr> = (None, st)"
    and f: "fs' = cleanup sf (put (log_file sf) (File (Data (logged st)) now) (files st))"
    by blast
  have "lookup (files \<lparr>files = fs1, logged = log_header\<rparr>) (OUTPUT_FOLDER sf)
           = Some (Dir ((''processed_kmz_log.txt'', File (Data []) now) # []))"
    using scratch_listing_output[OF l] by simp
  from process_kmz_list_keeps_log_first[OF p this, of "[]"] obtain rest lines where
    o: "lookup (files st) (OUTPUT_FOLDER sf)
          = Some (Dir ((''processed_kmz_log.txt'', File (Data []) now) # rest))"
    and g: "logged st = log_header @ lines" and e: "(lines = []) = (rest = [])"
    by auto
  let ?closed = "put (log_file sf) (File (Data (logged st)) now) (files st)"
  have c: "lookup ?closed (OUTPUT_FOLDER sf)
          = Some (Dir ((''processed_kmz_log.txt'', File (Data (log_header @ lines)) now) # rest))"
    using lookup_put_child[OF o, of "''processed_kmz_log.txt''"] by (simp add: log_file_def g)
  have "lookup fs' (OUTPUT_FOLDER sf) = lookup ?closed (OUTPUT_FOLDER sf)"
    using temp_output_unrelated[where sf=sf and xs="[]" and ys="[]"]
    by (simp add: f cleanup_def lookup_remove_incomp)
  with c have o': "lookup fs' (OUTPUT_FOLDER sf)
          = Some (Dir ((''processed_kmz_log.txt'', File (Data (log_header @ lines)) now) # rest))"
    by simp
  then have "read_text fs' (log_file sf) = Some (log_header @ lines)"
    by (simp add: read_text_def log_file_def lookup_append)
  with o' e show ?thesis by blast
qed

theorem log_file_written_witness:
  "run_script stored_order ex_sf 100 ex_no_image = (None, ex_no_image_after)
   \<and> (\<exists>lines rest.
         lookup ex_no_image_after (OUTPUT_FOLDER ex_sf)
           = Some (Dir ((''processed_kmz_log.txt'', File (Data (log_header @ lines)) 100) # rest))
         \<and> read_text ex_no_image_after (log_file ex_sf) = Some (log_header @ lines)
         \<and> (lines = []) = (rest = []))
   \<and> read_text ex_no_image_after (log_file ex_sf) = Some log_header"
proof -
  have h: "run_script stored_order ex_sf 100 ex_no_image = (None, ex_no_image_after)"
    by code_simp
  have "read_text ex_no_image_after (log_file ex_sf) = Some log_header"
    by code_simp
  with log_file_written[OF h] h show ?thesis by blast
qed

subsection \<open>The entries of an output archive\<close>




subsection \<open>Running the script twice\<close>



end
